theory Spec2Isabelle
  imports Complex_Main
begin

section \<open>JavaScript strings\<close>

text \<open>
  The action in \<^verbatim>\<open>src/actions/AAJ-850mm/server.js\<close> is one asynchronous JavaScript
  function. Its strings are modelled as \<^typ>\<open>string\<close>: one \<^typ>\<open>char\<close> is one code unit
  below 256 (the Latin-1 range of UTF-16). Text with code units above 255 is outside the model.
\<close>

definition js_space :: "char \<Rightarrow> bool" where
  \<comment> \<open>WhiteSpace and LineTerminator of ECMAScript below 256: TAB, LF, VT, FF, CR, SP, NBSP.
      \<^verbatim>\<open>String.prototype.trim\<close> and the regular-expression class \<^verbatim>\<open>\s\<close> use the same set.\<close>
  "js_space c \<longleftrightarrow> (of_char c :: nat) \<in> {9, 10, 11, 12, 13, 32, 160}"

definition trim :: "string \<Rightarrow> string" where
  "trim s = rev (dropWhile js_space (rev (dropWhile js_space s)))"

definition startsWith :: "string \<Rightarrow> string \<Rightarrow> bool" where
  "startsWith s p \<longleftrightarrow> take (length p) s = p"

definition endsWith :: "string \<Rightarrow> string \<Rightarrow> bool" where
  "endsWith s p \<longleftrightarrow> length p \<le> length s \<and> drop (length s - length p) s = p"

definition js_lower :: "char \<Rightarrow> char" where
  \<comment> \<open>\<^verbatim>\<open>toLowerCase\<close> on one code unit below 256: A-Z and the Latin-1 capitals
      U+00C0..U+00DE (without the multiplication sign U+00D7) move up by 32.\<close>
  "js_lower c =
     (let n = (of_char c :: nat)
      in if (65 \<le> n \<and> n \<le> 90) \<or> (192 \<le> n \<and> n \<le> 222 \<and> n \<noteq> 215)
         then char_of (n + 32) else c)"

definition toLowerCase :: "string \<Rightarrow> string" where
  "toLowerCase s = map js_lower s"

fun join :: "string \<Rightarrow> string list \<Rightarrow> string" where
  "join sep [] = []"
| "join sep [x] = x"
| "join sep (x # y # ys) = x @ sep @ join sep (y # ys)"

subsection \<open>Regular expressions and split\<close>

text \<open>
  The source uses three regular expressions: \<^verbatim>\<open>/\s*,\s*/\<close>, \<^verbatim>\<open>/\r?\n/\<close> and the one built
  at run time by \<^verbatim>\<open>new RegExp(escapeRegex(del), "g")\<close>. The fragment they need is a sequence
  of single-character atoms, each taken once, optionally (\<^verbatim>\<open>?\<close>) or greedily repeated (\<^verbatim>\<open>*\<close>).
  \<open>re_match\<close> is the backtracking matcher anchored at the start of its input, trying the
  alternatives in JavaScript's priority order; it returns the length of the match.
\<close>

datatype re_atom = Chr char | Space

datatype re_item = One re_atom | Opt re_atom | Star re_atom

type_synonym regex = "re_item list"

fun atom_ok :: "re_atom \<Rightarrow> char \<Rightarrow> bool" where
  "atom_ok (Chr d) c \<longleftrightarrow> c = d"
| "atom_ok Space c \<longleftrightarrow> js_space c"

fun re_match :: "regex \<Rightarrow> string \<Rightarrow> nat option" where
  "re_match [] s = Some 0"
| "re_match (One a # r) [] = None"
| "re_match (One a # r) (c # cs) =
     (if atom_ok a c then map_option Suc (re_match r cs) else None)"
| "re_match (Opt a # r) [] = re_match r []"
| "re_match (Opt a # r) (c # cs) =
     (if atom_ok a c
      then (case re_match r cs of Some n \<Rightarrow> Some (Suc n) | None \<Rightarrow> re_match r (c # cs))
      else re_match r (c # cs))"
| "re_match (Star a # r) [] = re_match r []"
| "re_match (Star a # r) (c # cs) =
     (if atom_ok a c
      then (case re_match (Star a # r) cs of Some n \<Rightarrow> Some (Suc n)
            | None \<Rightarrow> re_match r (c # cs))
      else re_match r (c # cs))"

definition re_comma :: regex where
  \<comment> \<open>\<^verbatim>\<open>/\s*,\s*/\<close>\<close>
  "re_comma = [Star Space, One (Chr CHR '',''), Star Space]"

definition re_newline :: regex where
  \<comment> \<open>\<^verbatim>\<open>/\r?\n/\<close>\<close>
  "re_newline = [Opt (Chr (CHR 0x0D)), One (Chr (CHR 0x0A))]"

definition syntax_chars :: string where
  \<comment> \<open>the character class of \<^verbatim>\<open>escapeRegex\<close>: \<^verbatim>\<open>[.*+?^${}()|[\]\\]\<close>\<close>
  "syntax_chars = [CHR ''.'', CHR ''*'', CHR ''+'', CHR ''?'', CHR ''^'', CHR ''$'', CHR ''{'',
     CHR ''}'', CHR ''('', CHR '')'', CHR ''|'', CHR ''['', CHR '']'', CHR 0x5C]"

definition escapeRegex :: "string \<Rightarrow> string" where
  \<comment> \<open>\<^verbatim>\<open>s.replace(/[.*+?^${}()|[\]\\]/g, '\\$&')\<close>: a backslash before each syntax character\<close>
  "escapeRegex s = concat (map (\<lambda>c. if c \<in> set syntax_chars then [CHR 0x5C, c] else [c]) s)"

fun RegExp :: "string \<Rightarrow> regex option" where
  \<comment> \<open>\<^verbatim>\<open>new RegExp(pattern)\<close> for patterns of plain characters and escaped syntax
      characters; \<open>None\<close> for a pattern outside this fragment.\<close>
  "RegExp [] = Some []"
| "RegExp [c] = (if c \<in> set syntax_chars then None else Some [One (Chr c)])"
| "RegExp (c # d # r) =
     (if c = CHR 0x5C
      then (if d \<in> set syntax_chars then map_option ((#) (One (Chr d))) (RegExp r) else None)
      else if c \<in> set syntax_chars then None
      else map_option ((#) (One (Chr c))) (RegExp (d # r)))"

text \<open>
  The loop of \<^verbatim>\<open>split\<close>: \<open>acc\<close> holds, reversed, the characters between the end \<open>p\<close> of the
  last separator and the position \<open>q\<close> under test. A match at \<open>q\<close> that ends at \<open>p\<close> (an
  empty match right after a separator) is skipped, as in the language definition.
\<close>

function split_loop :: "(string \<Rightarrow> nat option) \<Rightarrow> string \<Rightarrow> string \<Rightarrow> string list" where
  "split_loop m acc [] = [rev acc]"
| "split_loop m acc (c # cs) =
     (case m (c # cs) of
        None \<Rightarrow> split_loop m (c # acc) cs
      | Some 0 \<Rightarrow> (if acc = [] then split_loop m [c] cs
                    else rev acc # split_loop m [] (c # cs))
      | Some (Suc n) \<Rightarrow> rev acc # split_loop m [] (drop n cs))"
  by pat_completeness auto
termination
  by (relation "measure (\<lambda>(m, acc, s). 2 * length s + (if acc = [] then 0 else 1))") auto

definition regex_split :: "regex \<Rightarrow> string \<Rightarrow> string list" where
  \<comment> \<open>\<^verbatim>\<open>s.split(regex)\<close>\<close>
  "regex_split re s =
     (if s = [] then (if re_match re [] = None then [''''] else [])
      else split_loop (re_match re) [] s)"

definition literal_match :: "string \<Rightarrow> string \<Rightarrow> nat option" where
  \<comment> \<open>the separator itself at the start of the input\<close>
  "literal_match sep t = (if startsWith t sep then Some (length sep) else None)"

definition string_split :: "string \<Rightarrow> string \<Rightarrow> string list" where
  \<comment> \<open>\<^verbatim>\<open>s.split(sep)\<close> with a string separator\<close>
  "string_split sep s =
     (if s = [] then (if sep = [] then [] else [''''])
      else split_loop (literal_match sep) [] s)"

section \<open>JavaScript values\<close>

text \<open>
  A number is a double: not-a-number, an infinity, or a finite value kept as the rational it
  denotes (the two zeros are not told apart; nothing in the source can see the difference).
  No arithmetic is done on numbers here, only comparisons and conversions.

  An object is the list of its own properties in enumeration order; \<open>JSON.parse\<close> and the
  host deliver plain data only (no functions, no cycles, no accessors).
\<close>

datatype jsnum = NaN | PosInf | NegInf | Fin rat

datatype jsval =
    JUndefined
  | JNull
  | JBool bool
  | JNum jsnum
  | JStr string
  | JArr "jsval list"
  | JObj "(string \<times> jsval) list"

datatype js_error = JsError (err_name: string) (err_message: string)

definition error_text :: "js_error \<Rightarrow> string" where
  \<comment> \<open>\<^verbatim>\<open>String(err)\<close>\<close>
  "error_text e =
     (if err_message e = [] then err_name e
      else if err_name e = [] then err_message e
      else err_name e @ '': '' @ err_message e)"

text \<open>
  What the source takes from the JavaScript runtime and what is not modelled here
  (parsing JSON text, printing a number that is not a safe integer, reading a string as
  a number, the two TypeErrors of the engine) is a parameter of every definition below.

  An expression that can throw has a value of type \<open>js_error + 'a\<close>: \<open>Inl\<close> is the error
  thrown, \<open>Inr\<close> the value.
\<close>

record js_runtime =
  JSON_parse :: "string \<Rightarrow> jsval option"  \<comment> \<open>\<open>None\<close>: \<^verbatim>\<open>JSON.parse\<close> throws a SyntaxError\<close>
  number_format :: "rat \<Rightarrow> string"  \<comment> \<open>\<^verbatim>\<open>Number::toString\<close> outside the safe integers\<close>
  StringToNumber :: "string \<Rightarrow> jsnum"  \<comment> \<open>\<^verbatim>\<open>Number(s)\<close> for a string\<close>
  no_primitive_error :: js_error  \<comment> \<open>thrown when an object cannot be made a primitive value\<close>
  not_callable_error :: js_error  \<comment> \<open>thrown when a property that is no function is called\<close>

fun map_all :: "('a \<Rightarrow> 'e + 'b) \<Rightarrow> 'a list \<Rightarrow> 'e + 'b list" where
  \<comment> \<open>\<^verbatim>\<open>xs.map(f)\<close> with a callback that can throw: the first error ends the loop\<close>
  "map_all f [] = Inr []"
| "map_all f (x # xs) =
     (case f x of
        Inl e \<Rightarrow> Inl e
      | Inr y \<Rightarrow> (case map_all f xs of Inl e \<Rightarrow> Inl e | Inr ys \<Rightarrow> Inr (y # ys)))"

fun filter_all :: "('a \<Rightarrow> 'e + bool) \<Rightarrow> 'a list \<Rightarrow> 'e + 'a list" where
  \<comment> \<open>\<^verbatim>\<open>xs.filter(p)\<close> with a callback that can throw\<close>
  "filter_all p [] = Inr []"
| "filter_all p (x # xs) =
     (case p x of
        Inl e \<Rightarrow> Inl e
      | Inr b \<Rightarrow> (case filter_all p xs of
                    Inl e \<Rightarrow> Inl e
                  | Inr ys \<Rightarrow> Inr (if b then x # ys else ys)))"

fun somes :: "'a option list \<Rightarrow> 'a list" where
  \<comment> \<open>\<^verbatim>\<open>xs.filter(Boolean)\<close> on a list of objects and \<^verbatim>\<open>null\<close>s\<close>
  "somes [] = []"
| "somes (None # xs) = somes xs"
| "somes (Some x # xs) = x # somes xs"

function digits :: "nat \<Rightarrow> string" where
  "digits n =
     (if n < 10 then [''0123456789'' ! n]
      else digits (n div 10) @ [''0123456789'' ! (n mod 10)])"
  by pat_completeness auto
termination
  by (relation "measure id") auto

declare digits.simps [simp del]

definition Number_toString :: "js_runtime \<Rightarrow> jsnum \<Rightarrow> string" where
  \<comment> \<open>an integer of magnitude at most \<open>2^53\<close> prints as its decimal digits\<close>
  "Number_toString rt n =
     (case n of
        NaN \<Rightarrow> ''NaN''
      | PosInf \<Rightarrow> ''Infinity''
      | NegInf \<Rightarrow> ''-Infinity''
      | Fin q \<Rightarrow>
          if q = of_int \<lfloor>q\<rfloor> \<and> \<bar>q\<bar> \<le> 2 ^ 53
          then (if q < 0 then ''-'' else []) @ digits (nat \<bar>\<lfloor>q\<rfloor>\<bar>)
          else number_format rt q)"

fun num_gt :: "jsnum \<Rightarrow> jsnum \<Rightarrow> bool" where
  \<comment> \<open>\<^verbatim>\<open>a > b\<close> on numbers; false when either side is NaN\<close>
  "num_gt NaN b = False"
| "num_gt a NaN = False"
| "num_gt PosInf PosInf = False"
| "num_gt PosInf b = True"
| "num_gt NegInf b = False"
| "num_gt (Fin x) PosInf = False"
| "num_gt (Fin x) NegInf = True"
| "num_gt (Fin x) (Fin y) = (y < x)"

fun truthy :: "jsval \<Rightarrow> bool" where
  "truthy JUndefined = False"
| "truthy JNull = False"
| "truthy (JBool b) = b"
| "truthy (JNum n) = (n \<noteq> NaN \<and> n \<noteq> Fin 0)"
| "truthy (JStr s) = (s \<noteq> [])"
| "truthy (JArr xs) = True"
| "truthy (JObj es) = True"

fun nullish :: "jsval \<Rightarrow> bool" where
  \<comment> \<open>\<^verbatim>\<open>v == null\<close>\<close>
  "nullish JUndefined = True"
| "nullish JNull = True"
| "nullish v = False"

text \<open>
  \<^verbatim>\<open>String(v)\<close>. A plain object inherits \<^verbatim>\<open>toString\<close> and \<^verbatim>\<open>valueOf\<close> from
  \<^verbatim>\<open>Object.prototype\<close>, and its string form is \<^verbatim>\<open>[object Object]\<close>. An own property named
  \<^verbatim>\<open>toString\<close> hides the inherited method; in plain data it is no function, the inherited
  \<^verbatim>\<open>valueOf\<close> returns the object itself, and the conversion throws a TypeError. An array
  joins the string forms of its elements with a comma, null and undefined elements giving
  the empty string; the first element that cannot be converted makes the join throw.
\<close>

fun js_String :: "js_runtime \<Rightarrow> jsval \<Rightarrow> js_error + string"
  and element_strings :: "js_runtime \<Rightarrow> jsval list \<Rightarrow> js_error + string list" where
  "js_String rt JUndefined = Inr ''undefined''"
| "js_String rt JNull = Inr ''null''"
| "js_String rt (JBool b) = Inr (if b then ''true'' else ''false'')"
| "js_String rt (JNum n) = Inr (Number_toString rt n)"
| "js_String rt (JStr s) = Inr s"
| "js_String rt (JArr xs) =
     (case element_strings rt xs of Inl e \<Rightarrow> Inl e | Inr ss \<Rightarrow> Inr (join '','' ss))"
| "js_String rt (JObj es) =
     (if ''toString'' \<in> fst ` set es then Inl (no_primitive_error rt)
      else Inr ''[object Object]'')"
| "element_strings rt [] = Inr []"
| "element_strings rt (x # xs) =
     (case (if nullish x then Inr [] else js_String rt x) of
        Inl e \<Rightarrow> Inl e
      | Inr s \<Rightarrow> (case element_strings rt xs of Inl e \<Rightarrow> Inl e | Inr ss \<Rightarrow> Inr (s # ss)))"

definition call_toString :: "js_runtime \<Rightarrow> jsval \<Rightarrow> js_error + string" where
  \<comment> \<open>\<^verbatim>\<open>v.toString()\<close> for a value that is not null or undefined: as \<^verbatim>\<open>String(v)\<close>, but an own
      property \<^verbatim>\<open>toString\<close> of an object is itself called, and it is no function\<close>
  "call_toString rt v =
     (case v of
        JObj es \<Rightarrow> if ''toString'' \<in> fst ` set es then Inl (not_callable_error rt)
                   else Inr ''[object Object]''
      | _ \<Rightarrow> js_String rt v)"

fun js_get :: "jsval \<Rightarrow> string \<Rightarrow> jsval" where
  \<comment> \<open>\<^verbatim>\<open>v.name\<close> for the names the source reads (\<^verbatim>\<open>key\<close>, \<^verbatim>\<open>value\<close>, \<^verbatim>\<open>status\<close>, \<^verbatim>\<open>id\<close>):
      none of them is a built-in member of a string, an array, a number or a boolean.
      The source reads no property of null or undefined.\<close>
  "js_get (JObj es) k = (case map_of es k of Some v \<Rightarrow> v | None \<Rightarrow> JUndefined)"
| "js_get v k = JUndefined"

subsection \<open>JSON.stringify\<close>

definition hex_digit :: "nat \<Rightarrow> char" where
  "hex_digit n = ''0123456789abcdef'' ! n"

definition quote_unit :: "char \<Rightarrow> string" where
  "quote_unit c =
     (let n = (of_char c :: nat)
      in if n = 8 then [CHR 0x5C, CHR ''b'']
         else if n = 9 then [CHR 0x5C, CHR ''t'']
         else if n = 10 then [CHR 0x5C, CHR ''n'']
         else if n = 12 then [CHR 0x5C, CHR ''f'']
         else if n = 13 then [CHR 0x5C, CHR ''r'']
         else if n = 34 then [CHR 0x5C, CHR 0x22]
         else if n = 92 then [CHR 0x5C, CHR 0x5C]
         else if n < 32 then [CHR 0x5C, CHR ''u'', CHR ''0'', CHR ''0'',
                              hex_digit (n div 16), hex_digit (n mod 16)]
         else [c])"

definition QuoteJSONString :: "string \<Rightarrow> string" where
  "QuoteJSONString s = [CHR 0x22] @ concat (map quote_unit s) @ [CHR 0x22]"

fun SerializeJSONProperty :: "js_runtime \<Rightarrow> jsval \<Rightarrow> string option" where
  \<comment> \<open>\<open>None\<close> is the result \<^verbatim>\<open>undefined\<close>: such an array element prints as \<^verbatim>\<open>null\<close>, such a
      property is left out. Plain data has no \<^verbatim>\<open>toJSON\<close> function, so nothing here throws.\<close>
  "SerializeJSONProperty rt JUndefined = None"
| "SerializeJSONProperty rt JNull = Some ''null''"
| "SerializeJSONProperty rt (JBool b) = Some (if b then ''true'' else ''false'')"
| "SerializeJSONProperty rt (JNum n) =
     Some (case n of Fin q \<Rightarrow> Number_toString rt n | _ \<Rightarrow> ''null'')"
| "SerializeJSONProperty rt (JStr s) = Some (QuoteJSONString s)"
| "SerializeJSONProperty rt (JArr xs) =
     Some (''['' @ join '',''
        (map (\<lambda>x. case SerializeJSONProperty rt x of None \<Rightarrow> ''null'' | Some t \<Rightarrow> t) xs)
        @ '']'')"
| "SerializeJSONProperty rt (JObj es) =
     Some (''{'' @ join '',''
        (concat (map (\<lambda>e. case SerializeJSONProperty rt (snd e) of None \<Rightarrow> []
                          | Some t \<Rightarrow> [QuoteJSONString (fst e) @ '':'' @ t]) es))
        @ ''}'')"

definition JSON_stringify :: "js_runtime \<Rightarrow> jsval \<Rightarrow> string" where
  \<comment> \<open>every call in the source passes a value that is not \<^verbatim>\<open>undefined\<close>, so the result is a
      string (lemma \<open>SerializeJSONProperty_defined\<close>)\<close>
  "JSON_stringify rt v = the (SerializeJSONProperty rt v)"

section \<open>ValueListTokenizer\<close>

definition toStr :: "js_runtime \<Rightarrow> jsval \<Rightarrow> js_error + string" where
  \<comment> \<open>\<^verbatim>\<open>String(v == null ? "" : v)\<close>\<close>
  "toStr rt v = js_String rt (if nullish v then JStr [] else v)"

definition stripOuterQuotes :: "string \<Rightarrow> string" where
  \<comment> \<open>\<^verbatim>\<open>t.slice(1, -1)\<close> drops the first and the last code unit; of a one-character string
      nothing is left\<close>
  "stripOuterQuotes s =
     (let t = trim s
      in if (startsWith t [CHR 0x22] \<and> endsWith t [CHR 0x22])
            \<or> (startsWith t [CHR 0x27] \<and> endsWith t [CHR 0x27])
         then butlast (tl t) else t)"

definition try_json_array :: "js_runtime \<Rightarrow> string \<Rightarrow> jsval list option" where
  \<comment> \<open>\<^verbatim>\<open>s.startsWith("[")\<close>, \<^verbatim>\<open>JSON.parse(s)\<close> inside the \<^verbatim>\<open>try\<close>, and
      \<^verbatim>\<open>Array.isArray(arr)\<close>: the array, or \<open>None\<close> to fall through\<close>
  "try_json_array rt s =
     (if startsWith s ''[''
      then (case JSON_parse rt s of Some (JArr arr) \<Rightarrow> Some arr | _ \<Rightarrow> None)
      else None)"

definition json_array_tokens :: "js_runtime \<Rightarrow> string \<Rightarrow> string list option" where
  \<comment> \<open>the whole \<^verbatim>\<open>try\<close> block of \<^verbatim>\<open>splitValueList\<close>: what it returns, or \<open>None\<close> when control
      falls through. The \<^verbatim>\<open>catch\<close> also takes an error thrown by \<^verbatim>\<open>toStr(x)\<close> in the
      \<^verbatim>\<open>map\<close>.\<close>
  "json_array_tokens rt s =
     (case try_json_array rt s of
        None \<Rightarrow> None
      | Some arr \<Rightarrow>
          (case map_all (toStr rt) arr of
             Inl e \<Rightarrow> None
           | Inr strs \<Rightarrow>
               (let out = map stripOuterQuotes strs
                in Some (if out \<noteq> [] then out else ['''']))))"

definition delimiter_tokens :: "string \<Rightarrow> string \<Rightarrow> string list" where
  \<comment> \<open>lines 51 to 63: the custom delimiter, then the comma fallback. The parts are
      strings, so \<^verbatim>\<open>toStr(x)\<close> is \<open>x\<close>; \<^verbatim>\<open>|| [""]\<close> never applies, an array being truthy.\<close>
  "delimiter_tokens s delimiter =
     (let del = (if delimiter \<noteq> [] then delimiter else '','');
          delRegex = the (RegExp (escapeRegex del));
          parts = regex_split delRegex s
      in if length parts > 1
         then filter (\<lambda>x. length x \<noteq> 0 \<or> x = [])
                (map trim (map stripOuterQuotes parts))
         else filter (\<lambda>x. length x \<noteq> 0 \<or> x = [])
                (map trim (map stripOuterQuotes (regex_split re_comma s))))"

definition splitValueList :: "js_runtime \<Rightarrow> jsval \<Rightarrow> string \<Rightarrow> js_error + string list" where
  \<comment> \<open>\<^verbatim>\<open>toStr(raw)\<close> is outside the \<^verbatim>\<open>try\<close>: its error leaves the function\<close>
  "splitValueList rt raw delimiter =
     (case toStr rt raw of
        Inl e \<Rightarrow> Inl e
      | Inr s0 \<Rightarrow>
          (let s = trim s0
           in if s = [] then Inr ['''']
              else (case json_array_tokens rt s of
                      Some out \<Rightarrow> Inr out
                    | None \<Rightarrow> Inr (delimiter_tokens s delimiter))))"

section \<open>RowMatrixBuilder\<close>

subsection \<open>Objects: property order and assignment\<close>

fun dec_value :: "string \<Rightarrow> nat" where
  "dec_value [] = 0"
| "dec_value s = 10 * dec_value (butlast s) + (of_char (last s) - 48)"

definition array_index :: "string \<Rightarrow> nat option" where
  \<comment> \<open>a property key that is the canonical decimal form of an integer below \<open>2^32 - 1\<close>;
      such keys are enumerated first, in ascending order\<close>
  "array_index k =
     (let n = dec_value k
      in if k \<noteq> [] \<and> n \<le> 4294967294 \<and> digits n = k then Some n else None)"

fun insert_index :: "nat \<Rightarrow> string \<times> jsval \<Rightarrow> (string \<times> jsval) list \<Rightarrow> (string \<times> jsval) list" where
  "insert_index n kv [] = [kv]"
| "insert_index n kv (e # es) =
     (case array_index (fst e) of
        Some m \<Rightarrow> if m < n then e # insert_index n kv es else kv # e # es
      | None \<Rightarrow> kv # e # es)"

definition obj_set :: "string \<Rightarrow> jsval \<Rightarrow> (string \<times> jsval) list \<Rightarrow> (string \<times> jsval) list" where
  \<comment> \<open>\<^verbatim>\<open>obj[k] = v\<close> on an object made by a literal or a spread. An existing property keeps
      its place; a new one goes to the end, or, when its key is an array index, among the
      array indices in ascending order. The key \<^verbatim>\<open>__proto__\<close> names the prototype accessor
      that every such object inherits: the assignment calls its setter and makes no own
      property (the setter ignores a string).\<close>
  "obj_set k v es =
     (if k = ''__proto__'' then es
      else if k \<in> fst ` set es then map (\<lambda>e. if fst e = k then (k, v) else e) es
      else (case array_index k of
              None \<Rightarrow> es @ [(k, v)]
            | Some n \<Rightarrow> insert_index n (k, v) es))"

subsection \<open>buildJsonlFromKeyLists\<close>

definition pair_list :: "jsval \<Rightarrow> jsval list" where
  \<comment> \<open>\<^verbatim>\<open>(Array.isArray(pairs) ? pairs : []).filter(p => p && p.key != null)\<close>\<close>
  "pair_list pairs =
     filter (\<lambda>p. truthy p \<and> \<not> nullish (js_get p ''key''))
       (case pairs of JArr ps \<Rightarrow> ps | _ \<Rightarrow> [])"

definition column_of :: "js_runtime \<Rightarrow> string \<Rightarrow> jsval \<Rightarrow> js_error + (string \<times> string list) option" where
  \<comment> \<open>the callback of \<^verbatim>\<open>map\<close> in \<^verbatim>\<open>cols\<close>: \<open>None\<close> is its result \<^verbatim>\<open>null\<close>\<close>
  "column_of rt delimiter p =
     (case toStr rt (js_get p ''key'') of
        Inl e \<Rightarrow> Inl e
      | Inr ks \<Rightarrow>
          (let k = trim ks
           in if k = [] then Inr None
              else (case splitValueList rt (js_get p ''value'') delimiter of
                      Inl e \<Rightarrow> Inl e
                    | Inr values \<Rightarrow> Inr (Some (k, values)))))"

definition key_columns ::
  "js_runtime \<Rightarrow> jsval \<Rightarrow> string \<Rightarrow> js_error + (string \<times> string list) list" where
  \<comment> \<open>\<open>cols\<close>: the pairs whose trimmed key is not empty, each with its token list\<close>
  "key_columns rt pairs delimiter =
     (case map_all (column_of rt delimiter) (pair_list pairs) of
        Inl e \<Rightarrow> Inl e
      | Inr cs \<Rightarrow> Inr (somes cs))"

definition first_or_empty :: "string list \<Rightarrow> string" where
  \<comment> \<open>\<^verbatim>\<open>processedValues[0] || ""\<close>\<close>
  "first_or_empty vs = (case vs of [] \<Rightarrow> [] | v # _ \<Rightarrow> if v \<noteq> [] then v else [])"

definition persistent_entry :: "js_runtime \<Rightarrow> string \<Rightarrow> jsval \<Rightarrow> js_error + (string \<times> string) option" where
  \<comment> \<open>the callback of \<^verbatim>\<open>forEach\<close>: the key and the value it assigns, or \<open>None\<close> when the
      trimmed key is empty\<close>
  "persistent_entry rt delimiter p =
     (case toStr rt (js_get p ''key'') of
        Inl e \<Rightarrow> Inl e
      | Inr ks \<Rightarrow>
          (let k = trim ks
           in if k \<noteq> []
              then (case splitValueList rt (js_get p ''value'') delimiter of
                      Inl e \<Rightarrow> Inl e
                    | Inr processedValues \<Rightarrow> Inr (Some (k, first_or_empty processedValues)))
              else Inr None))"

definition persistent_object ::
  "js_runtime \<Rightarrow> string \<Rightarrow> jsval \<Rightarrow> js_error + (string \<times> jsval) list" where
  \<comment> \<open>\<open>persistentObj\<close>: the assignments of the loop, in order; an error of a callback ends
      the loop and leaves the function\<close>
  "persistent_object rt delimiter persistentPairs =
     (case persistentPairs of
        JArr ps \<Rightarrow>
          (case map_all (persistent_entry rt delimiter) (pair_list persistentPairs) of
             Inl e \<Rightarrow> Inl e
           | Inr entries \<Rightarrow>
               Inr (foldl (\<lambda>obj e. obj_set (fst e) (JStr (snd e)) obj) []
                      (somes entries)))
      | _ \<Rightarrow> Inr [])"

definition cell :: "string list \<Rightarrow> nat \<Rightarrow> string" where
  \<comment> \<open>\<^verbatim>\<open>c.values[i] !== undefined ? c.values[i] : ""\<close>: reading past the end gives \<^verbatim>\<open>undefined\<close>\<close>
  "cell vs i = (if i < length vs then vs ! i else [])"

definition row_count :: "(string \<times> string list) list \<Rightarrow> nat" where
  \<comment> \<open>\<^verbatim>\<open>cols.reduce((m, c) => Math.max(m, c.values.length), 0)\<close>\<close>
  "row_count cols = foldl (\<lambda>m c. max m (length (snd c))) 0 cols"

definition build_row ::
  "(string \<times> jsval) list \<Rightarrow> (string \<times> string list) list \<Rightarrow> nat \<Rightarrow> (string \<times> jsval) list" where
  \<comment> \<open>the object of loop round \<open>i\<close>, before it is serialized; \<^verbatim>\<open>toStr(v)\<close> of the string
      \<open>v\<close> is \<open>v\<close>\<close>
  "build_row persistentObj cols i =
     foldl (\<lambda>obj c. obj_set (fst c) (JStr (cell (snd c) i)) obj) persistentObj cols"

definition key_rows ::
  "js_runtime \<Rightarrow> jsval \<Rightarrow> string \<Rightarrow> jsval \<Rightarrow> js_error + (string \<times> jsval) list list" where
  \<comment> \<open>the row objects; with no column the function returns before it reads the
      persistent pairs\<close>
  "key_rows rt pairs delimiter persistentPairs =
     (case key_columns rt pairs delimiter of
        Inl e \<Rightarrow> Inl e
      | Inr cols \<Rightarrow>
          if cols = [] then Inr []
          else (case persistent_object rt delimiter persistentPairs of
                  Inl e \<Rightarrow> Inl e
                | Inr persistentObj \<Rightarrow>
                    Inr (map (build_row persistentObj cols) [0 ..< row_count cols])))"

definition buildJsonlFromKeyLists ::
  "js_runtime \<Rightarrow> jsval \<Rightarrow> string \<Rightarrow> jsval \<Rightarrow> js_error + string list \<times> nat" where
  \<comment> \<open>the result \<^verbatim>\<open>{ lines, count }\<close> as a pair\<close>
  "buildJsonlFromKeyLists rt pairs delimiter persistentPairs =
     (case key_rows rt pairs delimiter persistentPairs of
        Inl e \<Rightarrow> Inl e
      | Inr rows \<Rightarrow> Inr (map (\<lambda>obj. JSON_stringify rt (JObj obj)) rows, length rows))"

section \<open>JsonlNormalizer\<close>

definition keep_element :: "js_runtime \<Rightarrow> jsval \<Rightarrow> js_error + bool" where
  \<comment> \<open>\<^verbatim>\<open>x => x !== null && x !== undefined && String(x).trim() !== ""\<close>\<close>
  "keep_element rt x =
     (if x \<noteq> JNull \<and> x \<noteq> JUndefined
      then (case js_String rt x of Inl e \<Rightarrow> Inl e | Inr s \<Rightarrow> Inr (trim s \<noteq> []))
      else Inr False)"

definition toJsonlLines :: "js_runtime \<Rightarrow> jsval \<Rightarrow> js_error + string list" where
  "toJsonlLines rt input =
     (case input of
        JStr inp \<Rightarrow>
          (let s = trim inp
           in if s = [] then Inr []
              else
                (case try_json_array rt s of
                   Some arr \<Rightarrow>
                     Inr (map (\<lambda>x. case x of JStr t \<Rightarrow> t | _ \<Rightarrow> JSON_stringify rt x)
                            (filter (\<lambda>x. x \<noteq> JNull \<and> x \<noteq> JUndefined) arr))
                 | None \<Rightarrow> Inr (filter (\<lambda>l. l \<noteq> []) (map trim (regex_split re_newline s)))))
      | JArr xs \<Rightarrow>
          (case filter_all (keep_element rt) xs of
             Inl e \<Rightarrow> Inl e
           | Inr kept \<Rightarrow>
               Inr (map (\<lambda>x. case x of JStr t \<Rightarrow> trim t | _ \<Rightarrow> JSON_stringify rt x) kept))
      | JObj es \<Rightarrow> Inr [JSON_stringify rt input]
      | _ \<Rightarrow> Inr [])"

section \<open>BulkIngestOrchestrator\<close>

subsection \<open>Inputs, the transport\<close>

text \<open>
  \<^verbatim>\<open>properties.ndjson_list\<close>, when present, is a list object of the host: \<^verbatim>\<open>length()\<close> and
  \<^verbatim>\<open>get(0, len)\<close> are asynchronous calls, each of which yields a value or is rejected.
\<close>

datatype host_list = HostList (length_call: "js_error + nat") (get_call: "js_error + jsval")

text \<open>
  The fields of \<^verbatim>\<open>properties\<close> and of \<^verbatim>\<open>context.keys\<close> that the action reads. An absent field
  is \<open>JUndefined\<close>. \<^verbatim>\<open>key_delimiter\<close> is a text field: a string, or \<open>None\<close> when it is not given.
  \<open>ndjson_list\<close> is \<open>None\<close> when the field is absent or has no \<^verbatim>\<open>length\<close> function.
\<close>

record properties =
  key_delimiter :: "string option"
  version :: jsval
  object_type_text :: jsval
  apiToken :: jsval
  keys_or_raw :: jsval
  max_count :: jsval
  json_keys :: jsval
  json_keys_persistent :: jsval
  ndjson_list :: "host_list option"
  ndjson :: jsval
  items :: jsval
  object_type :: jsval

record context_keys =
  appID :: jsval
  appAPIKey :: jsval

record http_request =
  url :: string
  headers :: "(string \<times> string) list"
  body :: string

datatype http_reply =
    Reply nat jsval  \<comment> \<open>a response: status code and \<^verbatim>\<open>data\<close>\<close>
  | NoReply js_error  \<comment> \<open>no response: the request failed with this error\<close>

datatype outcome =
    Resolved jsval  \<comment> \<open>the promise of the invocation is fulfilled with this value\<close>
  | Rejected js_error  \<comment> \<open>an error leaves the invocation\<close>

definition js_or :: "jsval \<Rightarrow> jsval \<Rightarrow> jsval" where
  \<comment> \<open>\<^verbatim>\<open>a || b\<close>\<close>
  "js_or a b = (if truthy a then a else b)"

definition js_and :: "jsval \<Rightarrow> jsval \<Rightarrow> jsval" where
  \<comment> \<open>\<^verbatim>\<open>a && b\<close>\<close>
  "js_and a b = (if truthy a then b else a)"

fun js_Number :: "js_runtime \<Rightarrow> jsval \<Rightarrow> js_error + jsnum" where
  \<comment> \<open>\<^verbatim>\<open>Number(v)\<close>; an array or object is read through its string form, and throws when
      it has none\<close>
  "js_Number rt JUndefined = Inr NaN"
| "js_Number rt JNull = Inr (Fin 0)"
| "js_Number rt (JBool b) = Inr (Fin (if b then 1 else 0))"
| "js_Number rt (JNum n) = Inr n"
| "js_Number rt (JStr s) = Inr (StringToNumber rt s)"
| "js_Number rt v =
     (case js_String rt v of Inl e \<Rightarrow> Inl e | Inr s \<Rightarrow> Inr (StringToNumber rt s))"

definition failure :: "string \<Rightarrow> jsval" where
  \<comment> \<open>\<^verbatim>\<open>{ returned_error: true, error_message }\<close>\<close>
  "failure msg = JObj [(''returned_error'', JBool True), (''error_message'', JStr msg)]"

subsection \<open>Configuration\<close>

definition valueDelimiter :: "properties \<Rightarrow> string" where
  "valueDelimiter props =
     (case key_delimiter props of Some d \<Rightarrow> if d \<noteq> [] then d else '','' | None \<Rightarrow> '','')"

definition modeStr :: "js_runtime \<Rightarrow> properties \<Rightarrow> js_error + string" where
  \<comment> \<open>\<^verbatim>\<open>(properties.keys_or_raw ?? "").toString().toLowerCase()\<close>\<close>
  "modeStr rt props =
     (case call_toString rt (if nullish (keys_or_raw props) then JStr [] else keys_or_raw props) of
        Inl e \<Rightarrow> Inl e
      | Inr s \<Rightarrow> Inr (toLowerCase s))"

definition usingKeys :: "js_runtime \<Rightarrow> properties \<Rightarrow> js_error + bool" where
  "usingKeys rt props =
     (case modeStr rt props of Inl e \<Rightarrow> Inl e | Inr s \<Rightarrow> Inr (s = ''keys''))"

definition MAX_COUNT :: "js_runtime \<Rightarrow> properties \<Rightarrow> js_error + jsnum" where
  \<comment> \<open>\<^verbatim>\<open>Number(properties.max_count) > 0 ? Number(properties.max_count) : 25\<close>\<close>
  "MAX_COUNT rt props =
     (case js_Number rt (max_count props) of
        Inl e \<Rightarrow> Inl e
      | Inr n \<Rightarrow> Inr (if num_gt n (Fin 0) then n else Fin 25))"

subsection \<open>Building the body\<close>

text \<open>
  Each mode either ends the invocation (\<open>Inl\<close>: a value returned early, or an error that
  leaves the function) or yields the NDJSON body (\<open>Inr\<close>). \<open>maxCount\<close> is the value of the
  constant \<^verbatim>\<open>MAX_COUNT\<close>.
\<close>

definition keys_mode_body :: "js_runtime \<Rightarrow> properties \<Rightarrow> jsnum \<Rightarrow> outcome + string" where
  "keys_mode_body rt props maxCount =
     (let keyPairs = js_or (json_keys props) (JArr [])
      in if \<not> (case keyPairs of JArr ps \<Rightarrow> True | _ \<Rightarrow> False) \<or> keyPairs = JArr []
         then Inl (Resolved (failure
                ''json_keys must be a non-empty array of {key, value} in Keys mode.''))
         else
           (let persistentKeyPairs = js_or (json_keys_persistent props) (JArr [])
            in case buildJsonlFromKeyLists rt keyPairs (valueDelimiter props) persistentKeyPairs of
                 Inl e \<Rightarrow> Inl (Rejected e)
               | Inr built \<Rightarrow>
                   if snd built = 0
                   then Inl (Resolved (failure
                          ''No rows could be formed from the provided key/value lists.''))
                   else if num_gt (Fin (of_nat (snd built))) maxCount
                   then Inl (Resolved (failure
                          (''Too many rows from key lists: ''
                           @ Number_toString rt (Fin (of_nat (snd built)))
                           @ ''. Max allowed is '' @ Number_toString rt maxCount @ ''.'')))
                   else Inr (join [CHR 0x0A] (fst built))))"

definition list_lines :: "js_runtime \<Rightarrow> properties \<Rightarrow> js_error + string list" where
  \<comment> \<open>the lines from \<^verbatim>\<open>properties.ndjson_list\<close>; its two calls are awaited with no handler, so
      a rejection of either leaves the invocation\<close>
  "list_lines rt props =
     (case ndjson_list props of
        None \<Rightarrow> Inr []
      | Some l \<Rightarrow>
          (case length_call l of
             Inl e \<Rightarrow> Inl e
           | Inr len \<Rightarrow>
               if len \<noteq> 0
               then (case get_call l of
                       Inl e \<Rightarrow> Inl e
                     | Inr list \<Rightarrow> toJsonlLines rt list)
               else toJsonlLines rt (JArr [])))"

definition gather_lines :: "js_runtime \<Rightarrow> properties \<Rightarrow> string list \<Rightarrow> js_error + string list" where
  \<comment> \<open>\<open>lines\<close> after the three sources are joined, trimmed and freed of empty lines;
      \<open>lines0\<close> is what \<^verbatim>\<open>ndjson_list\<close> gave\<close>
  "gather_lines rt props lines0 =
     (let fromNdjson = (if ndjson props \<noteq> JUndefined then ndjson props else JNull);
          fromItems = (if items props \<noteq> JUndefined then items props else JNull)
      in case (if fromNdjson \<noteq> JNull then toJsonlLines rt fromNdjson else Inr []) of
           Inl e \<Rightarrow> Inl e
         | Inr lines1 \<Rightarrow>
             (case (if fromItems \<noteq> JNull then toJsonlLines rt fromItems else Inr []) of
                Inl e \<Rightarrow> Inl e
              | Inr lines2 \<Rightarrow>
                  Inr (filter (\<lambda>l. l \<noteq> []) (map trim (lines0 @ lines1 @ lines2)))))"

definition jsonl_mode_body :: "js_runtime \<Rightarrow> properties \<Rightarrow> jsnum \<Rightarrow> outcome + string" where
  "jsonl_mode_body rt props maxCount =
     (case list_lines rt props of
        Inl e \<Rightarrow> Inl (Rejected e)
      | Inr lines0 \<Rightarrow>
          (case gather_lines rt props lines0 of
             Inl e \<Rightarrow> Inl (Rejected e)
           | Inr lines \<Rightarrow>
               if length lines = 0
               then Inl (Resolved (failure
                      ''NDJSON body is empty. Provide 'ndjson' (text/array), 'items' (text/array), or 'ndjson_list' (list of text/objects).''))
               else if num_gt (Fin (of_nat (length lines))) maxCount
               then Inl (Resolved (failure
                      (''Too many NDJSON rows: '' @ Number_toString rt (Fin (of_nat (length lines)))
                       @ ''. Max allowed is '' @ Number_toString rt maxCount @ ''.'')))
               else Inr (join [CHR 0x0A] lines)))"

subsection \<open>The request and the response\<close>

definition request_url :: "js_runtime \<Rightarrow> properties \<Rightarrow> context_keys \<Rightarrow> js_error + string" where
  \<comment> \<open>the template of line 190; each substitution is made a string, in order\<close>
  "request_url rt props keys =
     (case js_String rt (appID keys) of
        Inl e \<Rightarrow> Inl e
      | Inr appDomain \<Rightarrow>
          (case js_String rt (js_or (version props) (JStr ''test'')) of
             Inl e \<Rightarrow> Inl e
           | Inr ver \<Rightarrow>
               (case js_String rt (object_type_text props) of
                  Inl e \<Rightarrow> Inl e
                | Inr thingType \<Rightarrow>
                    Inr (''https://'' @ appDomain @ ''.bubbleapps.io/version-'' @ ver
                         @ ''/api/1.1/obj/'' @ thingType @ ''/bulk''))))"

definition parse_response :: "js_runtime \<Rightarrow> string \<Rightarrow> jsval list" where
  \<comment> \<open>\<open>results\<close> of \<^verbatim>\<open>doBulkCreate\<close>. A JSON text that starts with \<^verbatim>\<open>[\<close> is an array, so
      \<^verbatim>\<open>JSON.parse(trimmed)\<close> gives an array or throws, and \<open>results\<close> is an array.\<close>
  "parse_response rt raw =
     (let trimmed = trim raw;
          results = (case try_json_array rt trimmed of Some xs \<Rightarrow> xs | None \<Rightarrow> [])
      in if length results = 0 \<and> length trimmed \<noteq> 0
         then map (\<lambda>l. case JSON_parse rt l of
                         Some v \<Rightarrow> v
                       | None \<Rightarrow> JObj [(''status'', JStr ''error''), (''raw'', JStr l)])
                (filter (\<lambda>l. l \<noteq> []) (string_split [CHR 0x0A] trimmed))
         else results)"

definition bulk_failed :: "js_error \<Rightarrow> js_error" where
  \<comment> \<open>\<^verbatim>\<open>new Error(`Bubble bulk create failed: ${body}`)\<close> for an error that carries no
      response: \<open>body\<close> is \<^verbatim>\<open>err.message || String(err)\<close>\<close>
  "bulk_failed err =
     JsError ''Error'' (''Bubble bulk create failed: '' @
        (if err_message err \<noteq> [] then err_message err else error_text err))"

definition doBulkCreate ::
  "js_runtime \<Rightarrow> (http_request \<Rightarrow> http_reply) \<Rightarrow> properties \<Rightarrow> context_keys \<Rightarrow> string \<Rightarrow> string
     \<Rightarrow> (js_error + jsval list) \<times> http_request list" where
  \<comment> \<open>The result and the requests sent. \<open>Inr\<close>: \<^verbatim>\<open>callback(null, { raw, results })\<close>, of which
      only \<open>results\<close> is read later; \<open>Inl\<close>: \<^verbatim>\<open>callback(new Error(...))\<close>. The Authorization
      header is built inside the \<^verbatim>\<open>try\<close>, before the request is sent. A status outside
      \<open>[200, 300)\<close> makes the client throw an error whose message is
      \<^verbatim>\<open>Request failed with status code N\<close>.\<close>
  "doBulkCreate rt transport props keys requestUrl ndjsonBody =
     (case js_String rt (js_or (apiToken props) (appAPIKey keys)) of
        Inl err \<Rightarrow> (Inl (bulk_failed err), [])
      | Inr token \<Rightarrow>
          (let req = \<lparr>url = requestUrl,
                      headers = [(''Authorization'', ''Bearer '' @ token),
                                 (''Content-Type'', ''text/plain''),
                                 (''Accept'', ''*/*'')],
                      body = ndjsonBody\<rparr>
           in ((case transport req of
                  Reply status data \<Rightarrow>
                    if 200 \<le> status \<and> status < 300
                    then Inr (parse_response rt (case data of JStr d \<Rightarrow> d | _ \<Rightarrow> []))
                    else Inl (JsError ''Error'' (''Bubble bulk create failed: '' @
                           (case data of
                              JStr d \<Rightarrow> d
                            | _ \<Rightarrow> ''Request failed with status code '' @ digits status)))
                | NoReply err \<Rightarrow> Inl (bulk_failed err)),
               [req])))"

section \<open>ResultReconciler\<close>

fun Object_entries :: "jsval \<Rightarrow> (string \<times> jsval) list" where
  \<comment> \<open>\<^verbatim>\<open>Object.entries(v)\<close> for a value that is not null or undefined\<close>
  "Object_entries (JObj es) = es"
| "Object_entries (JArr xs) = zip (map digits [0 ..< length xs]) xs"
| "Object_entries (JStr s) = zip (map digits [0 ..< length s]) (map (\<lambda>c. JStr [c]) s)"
| "Object_entries v = []"

definition is_success :: "jsval \<Rightarrow> bool" where
  \<comment> \<open>\<^verbatim>\<open>r => r && r.status === "success" && r.id\<close>, as \<^verbatim>\<open>filter\<close> reads it\<close>
  "is_success r =
     truthy (js_and (js_and r (JBool (js_get r ''status'' = JStr ''success''))) (js_get r ''id''))"

definition prefix_keys :: "jsval \<Rightarrow> jsval" where
  \<comment> \<open>one element of \<open>created_data\<close>\<close>
  "prefix_keys obj =
     JObj (foldl (\<lambda>mapped e. obj_set (''_p_'' @ fst e) (snd e) mapped) []
             (Object_entries (js_or obj (JObj []))))"

definition reconcile :: "js_runtime \<Rightarrow> properties \<Rightarrow> nat \<Rightarrow> jsval list \<Rightarrow> js_error + jsval" where
  \<comment> \<open>the handler given to \<^verbatim>\<open>then\<close>; \<open>payload.results\<close> is always an array here.
      \<^verbatim>\<open>String(s.id)\<close> can throw, and then the handler throws.\<close>
  "reconcile rt props requested_count results =
     (let successes = filter is_success results
      in case map_all (\<lambda>s. js_String rt (js_get s ''id'')) successes of
           Inl e \<Rightarrow> Inl e
         | Inr ids \<Rightarrow>
             (let successIds = map JStr ids;
                  created_data = map prefix_keys results;
                  wagwan = object_type props
              in Inr (JObj [(''returned_error'', JBool False),
                            (''requested_count'', JNum (Fin (of_nat requested_count))),
                            (''created_count'', JNum (Fin (of_nat (length successes)))),
                            (''created_ids'', JArr successIds),
                            (''created_data'', JArr created_data),
                            (''object_type_text'', wagwan),
                            (''created_data_id'', JArr successIds)])))"

definition on_rejection :: "properties \<Rightarrow> js_error \<Rightarrow> jsval" where
  \<comment> \<open>the handler given to \<^verbatim>\<open>catch\<close>\<close>
  "on_rejection props err =
     JObj [(''returned_error'', JBool True),
           (''error_message'', JStr (if err_message err \<noteq> [] then err_message err
                                     else ''An error occurred while creating items.'')),
           (''object_type_text'', object_type props)]"

section \<open>The invocation\<close>

definition requested_count_of :: "string \<Rightarrow> nat" where
  \<comment> \<open>\<^verbatim>\<open>ndjsonBody.split(/\r?\n/).filter(l => l && l.trim() !== "").length\<close>\<close>
  "requested_count_of ndjsonBody =
     length (filter (\<lambda>l. l \<noteq> [] \<and> trim l \<noteq> []) (regex_split re_newline ndjsonBody))"

definition settle :: "js_runtime \<Rightarrow> properties \<Rightarrow> string \<Rightarrow> js_error + jsval list \<Rightarrow> outcome" where
  \<comment> \<open>\<^verbatim>\<open>doBulkCreate().then(...).catch(...)\<close>: an error of the call or of the first handler
      goes to the second handler\<close>
  "settle rt props ndjsonBody result =
     (case result of
        Inl err \<Rightarrow> Resolved (on_rejection props err)
      | Inr results \<Rightarrow>
          (case reconcile rt props (requested_count_of ndjsonBody) results of
             Inl err \<Rightarrow> Resolved (on_rejection props err)
           | Inr out \<Rightarrow> Resolved out))"

definition dispatch ::
  "js_runtime \<Rightarrow> (http_request \<Rightarrow> http_reply) \<Rightarrow> properties \<Rightarrow> context_keys
     \<Rightarrow> outcome + string \<Rightarrow> outcome \<times> http_request list" where
  \<comment> \<open>what follows the construction of the body: the outcome of the invocation and the
      requests it has sent\<close>
  "dispatch rt transport props keys built =
     (case built of
        Inl out \<Rightarrow> (out, [])
      | Inr ndjsonBody \<Rightarrow>
          if \<not> truthy (object_type_text props)
          then (Resolved (failure ''thingType is required.''), [])
          else if \<not> truthy (js_or (apiToken props) (appAPIKey keys))
          then (Resolved (failure ''Missing Bubble API token.''), [])
          else
            (case request_url rt props keys of
               Inl e \<Rightarrow> (Rejected e, [])
             | Inr requestUrl \<Rightarrow>
                 (let sent = doBulkCreate rt transport props keys requestUrl ndjsonBody
                  in (settle rt props ndjsonBody (fst sent), snd sent))))"

definition invoke ::
  "js_runtime \<Rightarrow> (http_request \<Rightarrow> http_reply) \<Rightarrow> properties \<Rightarrow> context_keys
     \<Rightarrow> outcome \<times> http_request list" where
  \<comment> \<open>the mode and the limit are computed first (lines 12 to 16), outside every handler\<close>
  "invoke rt transport props keys =
     (case usingKeys rt props of
        Inl e \<Rightarrow> (Rejected e, [])
      | Inr keysMode \<Rightarrow>
          (case MAX_COUNT rt props of
             Inl e \<Rightarrow> (Rejected e, [])
           | Inr maxCount \<Rightarrow>
               dispatch rt transport props keys
                 (if keysMode then keys_mode_body rt props maxCount
                  else jsonl_mode_body rt props maxCount)))"

section \<open>Readings of the specification\<close>


section \<open>A runtime and inputs for the examples\<close>

text \<open>
  The examples below run the model on concrete inputs. Their runtime reads the JSON texts
  that occur in them (each entry is what \<^verbatim>\<open>JSON.parse\<close> returns for that text) and rejects
  every other text. No example turns a string into a number or prints a number that is not a
  safe integer, so the other two fields are never called.
\<close>

definition example_json :: "(string \<times> jsval) list" where
  "example_json =
     [(''[\"a\",\"b,c\"]'', JArr [JStr ''a'', JStr ''b,c'']),
      (''[\" a \"]'', JArr [JStr '' a '']),
      (''[]'', JArr []),
      (''[null,1,\" 'q' \",true]'', JArr [JNull, JNum (Fin 1), JStr '' 'q' '', JBool True]),
      (''[{\"toString\":1},2]'', JArr [JObj [(''toString'', JNum (Fin 1))], JNum (Fin 2)]),
      (''[{\"toString\":1}]'', JArr [JObj [(''toString'', JNum (Fin 1))]]),
      (''{\"status\":\"success\",\"id\":\"7\"}'',
         JObj [(''status'', JStr ''success''), (''id'', JStr ''7'')]),
      (''{\"status\":\"success\",\"id\":\"8\"}'',
         JObj [(''status'', JStr ''success''), (''id'', JStr ''8'')]),
      (''[{\"status\":\"success\",\"id\":\"1\"},{\"status\":\"error\"}]'',
         JArr [JObj [(''status'', JStr ''success''), (''id'', JStr ''1'')],
               JObj [(''status'', JStr ''error'')]])]"

definition example_rt :: js_runtime where
  "example_rt =
     \<lparr>JSON_parse = map_of example_json,
      number_format = (\<lambda>q. ''?''),
      StringToNumber = (\<lambda>s. NaN),
      no_primitive_error = JsError ''TypeError'' ''Cannot convert object to primitive value'',
      not_callable_error = JsError ''TypeError'' ''toString is not a function''\<rparr>"

definition key_value :: "string \<Rightarrow> string \<Rightarrow> jsval" where
  \<comment> \<open>one entry \<^verbatim>\<open>{ key, value }\<close> of \<^verbatim>\<open>json_keys\<close> or \<^verbatim>\<open>json_keys_persistent\<close>\<close>
  "key_value k v = JObj [(''key'', JStr k), (''value'', JStr v)]"

definition example_columns :: jsval where
  "example_columns = JArr [key_value ''name'' ''x,y,z'', key_value ''age'' ''1,2'']"

definition example_persistent :: jsval where
  "example_persistent = JArr [key_value ''source'' ''web'']"

definition source_columns :: jsval where
  \<comment> \<open>a column with the key of the persistent field\<close>
  "source_columns = JArr [key_value ''source'' ''a,b'']"

definition repeated_persistent :: jsval where
  \<comment> \<open>two persistent fields with the same key\<close>
  "repeated_persistent = JArr [key_value ''source'' ''web'', key_value ''source'' ''app'']"

definition repeated_columns :: jsval where
  \<comment> \<open>two columns with the same key, the first one shorter\<close>
  "repeated_columns = JArr [key_value ''age'' ''1'', key_value ''age'' ''7,8'']"

definition proto_columns :: jsval where
  \<comment> \<open>a short column whose key is the reserved name\<close>
  "proto_columns = JArr [key_value ''__proto__'' ''a'', key_value ''name'' ''x,y'']"

definition example_items :: jsval where
  "example_items = JArr [JStr ''  '', JObj [(''a'', JNum (Fin 1))], JStr ''raw'']"

definition example_response_lines :: "string list" where
  \<comment> \<open>three lines of a response; the second is not JSON\<close>
  "example_response_lines =
     [''{\"status\":\"success\",\"id\":\"7\"}'', ''not json'', ''{\"status\":\"success\",\"id\":\"8\"}'']"

definition example_response_array :: string where
  "example_response_array = ''[{\"status\":\"success\",\"id\":\"1\"},{\"status\":\"error\"}]''"

definition example_props :: properties where
  \<comment> \<open>Keys mode with the two example columns, no limit given\<close>
  "example_props =
     \<lparr>key_delimiter = None, version = JUndefined, object_type_text = JStr ''order'',
      apiToken = JStr ''secret'', keys_or_raw = JStr ''Keys'', max_count = JUndefined,
      json_keys = example_columns, json_keys_persistent = JUndefined, ndjson_list = None,
      ndjson = JUndefined, items = JUndefined, object_type = JStr ''order''\<rparr>"

definition example_keys :: context_keys where
  "example_keys = \<lparr>appID = JStr ''myapp'', appAPIKey = JUndefined\<rparr>"

definition many_rows_props :: properties where
  \<comment> \<open>Keys mode, one column of 26 tokens, no limit given\<close>
  "many_rows_props =
     example_props\<lparr>json_keys :=
       JArr [key_value ''n'' ''1,2,3,4,5,6,7,8,9,10,11,12,13,14,15,16,17,18,19,20,21,22,23,24,25,26'']\<rparr>"

definition many_lines_props :: properties where
  \<comment> \<open>JSONL mode, three lines, at most two allowed\<close>
  "many_lines_props =
     example_props\<lparr>keys_or_raw := JStr ''JSONL'', max_count := JNum (Fin 2),
       items := JArr [JStr ''a'', JStr ''b'', JStr ''c'']\<rparr>"

definition failing_list_props :: properties where
  \<comment> \<open>JSONL mode with a list of the host whose \<^verbatim>\<open>length()\<close> is rejected\<close>
  "failing_list_props =
     example_props\<lparr>keys_or_raw := JStr ''JSONL'',
       ndjson_list := Some (HostList (Inl (JsError ''Error'' ''list unavailable'')) (Inr (JArr [])))\<rparr>"

definition unconvertible_items_props :: properties where
  \<comment> \<open>JSONL mode; the one item is the object that \<^verbatim>\<open>JSON.parse('{"toString":1}')\<close> returns\<close>
  "unconvertible_items_props =
     example_props\<lparr>keys_or_raw := JStr ''JSONL'',
       items := JArr [JObj [(''toString'', JNum (Fin 1))]]\<rparr>"

definition example_transport :: "http_request \<Rightarrow> http_reply" where
  \<comment> \<open>an endpoint that answers every request with the example array\<close>
  "example_transport req = Reply 200 (JStr example_response_array)"

section \<open>Properties of the tokenizer\<close>

lemma backslash_syntax: "CHR 0x5C \<in> set syntax_chars"
  by (simp add: syntax_chars_def)

lemma escapeRegex_Cons:
  "escapeRegex (c # s) = (if c \<in> set syntax_chars then [CHR 0x5C, c] else [c]) @ escapeRegex s"
  by (simp add: escapeRegex_def)

lemma RegExp_plain_Cons:
  "c \<notin> set syntax_chars \<Longrightarrow> RegExp r = Some re \<Longrightarrow> RegExp (c # r) = Some (One (Chr c) # re)"
  using backslash_syntax by (cases r) auto

text \<open>The escaped delimiter compiles to the expression that matches the delimiter itself.\<close>

lemma RegExp_escapeRegex: "RegExp (escapeRegex d) = Some (map (\<lambda>c. One (Chr c)) d)"
proof (induction d)
  case Nil
  then show ?case by (simp add: escapeRegex_def)
next
  case (Cons c d)
  show ?case
  proof (cases "c \<in> set syntax_chars")
    case True
    then show ?thesis using Cons by (simp add: escapeRegex_Cons)
  next
    case False
    then show ?thesis using Cons RegExp_plain_Cons by (simp add: escapeRegex_Cons)
  qed
qed

lemma re_match_literal:
  "re_match (map (\<lambda>c. One (Chr c)) d) s = (if startsWith s d then Some (length d) else None)"
proof (induction d arbitrary: s)
  case Nil
  then show ?case by (simp add: startsWith_def)
next
  case (Cons c d)
  then show ?case by (cases s) (auto simp: startsWith_def)
qed


lemma toStr_JStr: "toStr rt (JStr s) = Inr s"
  by (simp add: toStr_def)

lemma filter_keep_all: "filter (\<lambda>x. length x \<noteq> 0 \<or> x = []) xs = xs"
  by (induction xs) auto

lemma split_loop_nonempty: "split_loop m acc s \<noteq> []"
  by (induction m acc s rule: split_loop.induct) (auto split: option.splits nat.splits)

lemma regex_split_nonempty: "re_match re [] = None \<Longrightarrow> regex_split re s \<noteq> []"
  by (simp add: regex_split_def split_loop_nonempty)







text \<open>
  The comma expression matches, at the start of its input, a comma with all the white space
  before it and after it.
\<close>

lemma comma_not_space: "\<not> js_space CHR '',''"
  by (simp add: js_space_def)

lemma re_match_spaces: "re_match [Star Space] t = Some (length (takeWhile js_space t))"
  by (induction t) auto

lemma re_match_comma:
  "re_match re_comma t =
     (case dropWhile js_space t of
        [] \<Rightarrow> None
      | c # r \<Rightarrow> if c = CHR '','' then Some (length (takeWhile js_space t) + 1
                                          + length (takeWhile js_space r))
                 else None)"
proof (induction t)
  case Nil
  then show ?case by (simp add: re_comma_def)
next
  case (Cons c t)
  show ?case
  proof (cases "js_space c")
    case True
    then have "c \<noteq> CHR '',''" using comma_not_space by auto
    moreover have ih: "re_match [Star Space, One (Chr CHR '',''), Star Space] t =
       (case dropWhile js_space t of
          [] \<Rightarrow> None
        | c # r \<Rightarrow> if c = CHR '','' then Some (length (takeWhile js_space t) + 1
                                          + length (takeWhile js_space r))
                 else None)"
      using Cons by (simp add: re_comma_def)
    ultimately show ?thesis
      unfolding re_comma_def using True
      by (simp add: ih split: list.splits) (metis dropWhile_eq_Nil_conv list.distinct(1))
  next
    case False
    then show ?thesis
      using comma_not_space by (simp add: re_comma_def re_match_spaces)
  qed
qed

lemmas tokenizer_defs =
  splitValueList_def json_array_tokens_def delimiter_tokens_def try_json_array_def toStr_def
  trim_def js_space_def startsWith_def endsWith_def stripOuterQuotes_def escapeRegex_def
  syntax_chars_def regex_split_def string_split_def literal_match_def re_comma_def


lemma map_all_Inr_length: "map_all f xs = Inr ys \<Longrightarrow> length ys = length xs"
  by (induction xs arbitrary: ys) (auto split: sum.splits)

lemma map_all_Inr_nth:
  "map_all f xs = Inr ys \<Longrightarrow> i < length xs \<Longrightarrow> f (xs ! i) = Inr (ys ! i)"
proof (induction xs arbitrary: ys i)
  case Nil
  then show ?case by simp
next
  case (Cons x xs)
  then show ?case by (cases i) (auto split: sum.splits)
qed

lemma map_all_Inl:
  "map_all f xs = Inl e \<Longrightarrow> \<exists>x \<in> set xs. f x = Inl e"
  by (induction xs) (auto split: sum.splits)


lemma delimiter_tokens_nonempty: "delimiter_tokens s delimiter \<noteq> []"
proof -
  have a: "regex_split (the (RegExp (escapeRegex (if delimiter \<noteq> [] then delimiter else '','')))) s
             \<noteq> []"
    by (rule regex_split_nonempty) (simp add: RegExp_escapeRegex re_match_literal startsWith_def)
  have b: "regex_split re_comma s \<noteq> []"
    by (rule regex_split_nonempty) (simp add: re_comma_def)
  show ?thesis
    using a b by (auto simp: delimiter_tokens_def Let_def filter_keep_all)
qed








lemma splitValueList_nonempty:
  "splitValueList rt raw delimiter = Inr toks \<Longrightarrow> toks \<noteq> []"
  using delimiter_tokens_nonempty
  by (auto simp: splitValueList_def json_array_tokens_def Let_def
      split: sum.splits option.splits if_splits)

lemma splitValueList_JStr_defined: "\<exists>toks. splitValueList rt (JStr s) delimiter = Inr toks"
  by (simp add: splitValueList_def toStr_def Let_def split: option.splits)






section \<open>Properties of the row builder\<close>

lemma map_of_replace:
  "map_of (map (\<lambda>e. if fst e = k then (k, v) else e) es) x
     = (if x = k \<and> k \<in> fst ` set es then Some v else map_of es x)"
  by (induction es) force+

lemma map_of_insert_index:
  "k \<notin> fst ` set es \<Longrightarrow> map_of (insert_index n (k, v) es) x = (if x = k then Some v else map_of es x)"
proof (induction es)
  case Nil
  then show ?case by simp
next
  case (Cons e es)
  then show ?case
    by (cases e) (auto split: option.splits)
qed

lemma map_of_obj_set:
  "map_of (obj_set k v es) = (if k = ''__proto__'' then map_of es else (map_of es)(k \<mapsto> v))"
proof (cases "k = ''__proto__''")
  case True
  then show ?thesis by (simp add: obj_set_def)
next
  case proto: False
  have "map_of (obj_set k v es) x = ((map_of es)(k \<mapsto> v)) x" for x
  proof (cases "k \<in> fst ` set es")
    case True
    then show ?thesis using proto by (simp add: obj_set_def map_of_replace)
  next
    case False
    then have "map_of es k = None" by (simp add: map_of_eq_None_iff)
    then show ?thesis using False proto
      by (auto simp: obj_set_def map_of_insert_index map_add_def split: option.splits)
  qed
  then show ?thesis using proto by auto
qed

text \<open>
  A sequence of assignments, read as a map: under every key but \<open>__proto__\<close> the last
  assignment to the key counts, and the initial value when there is none.
\<close>

lemma map_of_foldl_obj_set:
  assumes "x \<noteq> ''__proto__''"
  shows "map_of (foldl (\<lambda>obj c. obj_set (f c) (g c) obj) init cs) x
     = (map_of init ++ map_of (rev (map (\<lambda>c. (f c, g c)) cs))) x"
proof (induction cs arbitrary: init)
  case Nil
  then show ?case by simp
next
  case (Cons c cs)
  have "map_of (foldl (\<lambda>obj c. obj_set (f c) (g c) obj) init (c # cs)) x
      = (map_of (obj_set (f c) (g c) init) ++ map_of (rev (map (\<lambda>c. (f c, g c)) cs))) x"
    by (simp only: foldl_Cons Cons.IH)
  also have "\<dots> = (map_of init ++ map_of (rev (map (\<lambda>c. (f c, g c)) (c # cs)))) x"
    using assms by (auto simp: map_of_obj_set map_add_def split: option.splits)
  finally show ?case .
qed

lemma foldl_max:
  "foldl (\<lambda>m c. max m (f c)) (a::nat) cs = Max (insert a (f ` set cs))"
proof (induction cs arbitrary: a)
  case Nil
  then show ?case by simp
next
  case (Cons c cs)
  have "Max (insert (max a (f c)) (f ` set cs)) = Max (insert a (insert (f c) (f ` set cs)))"
    by (cases "set cs = {}") (simp_all add: max.assoc)
  then show ?case by (simp add: Cons.IH)
qed

lemma digits_chars: "set (digits n) \<subseteq> set ''0123456789''"
proof (induction n rule: digits.induct)
  case (1 n)
  have nth: "\<And>m. m < 10 \<Longrightarrow> ''0123456789'' ! m \<in> set ''0123456789''"
    by (rule nth_mem) simp
  show ?case
  proof (cases "n < 10")
    case True
    then show ?thesis using nth[of n] by (subst digits.simps) simp
  next
    case False
    have "n mod 10 < 10" by simp
    then show ?thesis using False 1 nth[of "n mod 10"] by (subst digits.simps) simp
  qed
qed

lemma array_index_nondigit:
  assumes "c \<in> set k" "c \<notin> set ''0123456789''"
  shows "array_index k = None"
proof -
  have "digits n \<noteq> k" for n using assms digits_chars[of n] by auto
  then show ?thesis by (simp add: array_index_def Let_def)
qed

lemma first_or_empty_hd: "vs \<noteq> [] \<Longrightarrow> first_or_empty vs = hd vs"
  by (cases vs) (auto simp: first_or_empty_def)

lemma in_set_drop_nth:
  assumes "x \<in> set (drop n xs)"
  shows "\<exists>i. n \<le> i \<and> i < length xs \<and> xs ! i = x"
proof -
  from assms obtain i where "i < length (drop n xs)" "drop n xs ! i = x"
    by (auto simp: in_set_conv_nth)
  then have "n \<le> n + i \<and> n + i < length xs \<and> xs ! (n + i) = x" by auto
  then show ?thesis by blast
qed

text \<open>The last pair with a key is the one that a lookup in the reversed list finds.\<close>

lemma map_of_rev_nth:
  assumes j: "j < length cols"
    and later: "\<forall>j'. j < j' \<and> j' < length cols \<longrightarrow> fst (cols ! j') \<noteq> fst (cols ! j)"
  shows "map_of (rev cols) (fst (cols ! j)) = Some (snd (cols ! j))"
proof -
  have split: "cols = take j cols @ cols ! j # drop (Suc j) cols"
    using j by (rule id_take_nth_drop)
  have "fst (cols ! j) \<notin> fst ` set (rev (drop (Suc j) cols))"
  proof
    assume "fst (cols ! j) \<in> fst ` set (rev (drop (Suc j) cols))"
    then obtain p where "p \<in> set (drop (Suc j) cols)" "fst p = fst (cols ! j)" by auto
    then obtain j' where "Suc j \<le> j'" "j' < length cols" "cols ! j' = p"
      using in_set_drop_nth by metis
    then have "j < j' \<and> j' < length cols" "fst (cols ! j') = fst (cols ! j)"
      using \<open>fst p = fst (cols ! j)\<close> by auto
    then show False using later by blast
  qed
  then have none: "map_of (rev (drop (Suc j) cols)) (fst (cols ! j)) = None"
    by (rule map_of_eq_None_iff [THEN iffD2])
  have "map_of (rev cols) (fst (cols ! j))
      = map_of (rev (take j cols @ cols ! j # drop (Suc j) cols)) (fst (cols ! j))"
    using split by simp
  also have "\<dots> = Some (snd (cols ! j))"
    using none by (simp add: map_add_def)
  finally show ?thesis .
qed

lemma map_all_append:
  "map_all f (xs @ ys) =
     (case map_all f xs of
        Inl e \<Rightarrow> Inl e
      | Inr as \<Rightarrow> (case map_all f ys of Inl e \<Rightarrow> Inl e | Inr bs \<Rightarrow> Inr (as @ bs)))"
  by (induction xs) (auto split: sum.splits)

lemma somes_append: "somes (xs @ ys) = somes xs @ somes ys"
  by (induction xs rule: somes.induct) auto

lemma key_truthy:
  assumes "toStr rt (js_get p ''key'') = Inr ks" and "trim ks \<noteq> []"
  shows "truthy p \<and> \<not> nullish (js_get p ''key'')"
proof -
  have n: "\<not> nullish (js_get p ''key'')"
    using assms by (auto simp: toStr_def trim_def)
  then have "\<exists>es. p = JObj es" by (cases p) auto
  then show ?thesis using n by auto
qed

lemma persistent_entries_keys:
  "map_all (persistent_entry rt d) xs = Inr es \<Longrightarrow> (k, v) \<in> set (somes es) \<Longrightarrow>
     \<exists>x \<in> set xs. \<exists>ks. toStr rt (js_get x ''key'') = Inr ks \<and> trim ks = k"
proof (induction xs arbitrary: es)
  case Nil
  then show ?case by auto
next
  case (Cons x xs)
  from Cons.prems(1) obtain e es' where e: "persistent_entry rt d x = Inr e"
    and es': "map_all (persistent_entry rt d) xs = Inr es'" and es: "es = e # es'"
    by (auto split: sum.splits)
  show ?case
  proof (cases "e = Some (k, v)")
    case True
    then have "\<exists>ks. toStr rt (js_get x ''key'') = Inr ks \<and> trim ks = k"
      using e by (auto simp: persistent_entry_def Let_def split: sum.splits if_splits)
    then show ?thesis by auto
  next
    case False
    then have "(k, v) \<in> set (somes es')"
      using Cons.prems(2) es by (cases e) auto
    then show ?thesis using Cons.IH [OF es'] by auto
  qed
qed

text \<open>
  The persistent object, read as a map: a field whose key no later field repeats gives the
  first token of its value.
\<close>

lemma persistent_object_lookup:
  assumes ok: "persistent_object rt delimiter (JArr ps) = Inr pobj"
    and j: "j < length ps"
    and ks: "toStr rt (js_get (ps ! j) ''key'') = Inr ks"
    and k: "trim ks = k" "k \<noteq> []" "k \<noteq> ''__proto__''"
    and later: "\<forall>j' ks'. j < j' \<and> j' < length ps \<and> toStr rt (js_get (ps ! j') ''key'') = Inr ks'
                  \<longrightarrow> trim ks' \<noteq> k"
  shows "\<exists>toks. splitValueList rt (js_get (ps ! j) ''value'') delimiter = Inr toks
           \<and> map_of pobj k = Some (JStr (hd toks))"
proof -
  let ?P = "\<lambda>p. truthy p \<and> \<not> nullish (js_get p ''key'')"
  let ?g = "\<lambda>e. (fst e, JStr (snd e))"
  from ok obtain entries
    where en: "map_all (persistent_entry rt delimiter) (filter ?P ps) = Inr entries"
      and pobj: "pobj = foldl (\<lambda>obj e. obj_set (fst e) (JStr (snd e)) obj) []
                          (somes entries)"
    by (auto simp: persistent_object_def pair_list_def split: sum.splits)
  have Pj: "?P (ps ! j)" using key_truthy [OF ks] k by simp
  have "ps = take j ps @ ps ! j # drop (Suc j) ps"
    using j by (rule id_take_nth_drop)
  then have "filter ?P ps = filter ?P (take j ps @ ps ! j # drop (Suc j) ps)" by simp
  then have "filter ?P ps = filter ?P (take j ps) @ ps ! j # filter ?P (drop (Suc j) ps)"
    using Pj by simp
  with en obtain as e bs
    where e: "persistent_entry rt delimiter (ps ! j) = Inr e"
      and bs: "map_all (persistent_entry rt delimiter) (filter ?P (drop (Suc j) ps)) = Inr bs"
      and entries: "entries = as @ e # bs"
    by (auto simp: map_all_append split: sum.splits)
  from e ks k obtain toks
    where toks: "splitValueList rt (js_get (ps ! j) ''value'') delimiter = Inr toks"
      and ev: "e = Some (k, first_or_empty toks)"
    by (auto simp: persistent_entry_def Let_def split: sum.splits)
  have nokey: "k \<notin> fst ` set (somes bs)"
  proof
    assume "k \<in> fst ` set (somes bs)"
    then obtain v where "(k, v) \<in> set (somes bs)" by auto
    from persistent_entries_keys [OF bs this] obtain x ks'
      where x: "x \<in> set (filter ?P (drop (Suc j) ps))"
        and ks': "toStr rt (js_get x ''key'') = Inr ks'" "trim ks' = k"
      by blast
    from x have "x \<in> set (drop (Suc j) ps)" by simp
    then obtain j' where "Suc j \<le> j'" "j' < length ps" "ps ! j' = x"
      using in_set_drop_nth by metis
    then have "j < j' \<and> j' < length ps \<and> toStr rt (js_get (ps ! j') ''key'') = Inr ks'"
      using ks' by auto
    then show False using later ks'(2) by blast
  qed
  have "fst ` set (rev (map ?g (somes bs))) = fst ` set (somes bs)"
    by (simp add: image_image)
  then have "k \<notin> fst ` set (rev (map ?g (somes bs)))"
    using nokey by simp
  then have none: "map_of (rev (map ?g (somes bs))) k = None"
    by (rule map_of_eq_None_iff [THEN iffD2])
  have "map_of pobj k = (map_of [] ++ map_of (rev (map ?g (somes entries)))) k"
    unfolding pobj using k(3) by (rule map_of_foldl_obj_set)
  also have "\<dots> = Some (JStr (first_or_empty toks))"
    using none by (simp add: entries ev somes_append map_add_def)
  finally show ?thesis
    using toks by (simp add: first_or_empty_hd splitValueList_nonempty)
qed

lemma key_rows_Inr:
  assumes "key_rows rt pairs delimiter persistentPairs = Inr rows"
  shows "\<exists>cols. key_columns rt pairs delimiter = Inr cols \<and> length rows = row_count cols
           \<and> (rows = [] \<or> (\<exists>pobj. persistent_object rt delimiter persistentPairs = Inr pobj
                  \<and> rows = map (build_row pobj cols) [0 ..< row_count cols]))"
  using assms
  by (auto simp: key_rows_def row_count_def split: sum.splits if_splits)

lemma buildJsonl_Inr:
  "buildJsonlFromKeyLists rt pairs delimiter persistentPairs = Inr built \<longleftrightarrow>
     (\<exists>rows. key_rows rt pairs delimiter persistentPairs = Inr rows
        \<and> built = (map (\<lambda>obj. JSON_stringify rt (JObj obj)) rows, length rows))"
  by (auto simp: buildJsonlFromKeyLists_def split: sum.splits)

lemma map_of_rev_cells:
  "map_of (rev (map (\<lambda>c. (fst c, g (snd c))) cols)) k = map_option g (map_of (rev cols) k)"
proof -
  have "rev (map (\<lambda>c. (fst c, g (snd c))) cols) = map (\<lambda>(k, v). (k, g v)) (rev cols)"
    by (simp add: rev_map case_prod_beta)
  then show ?thesis by (simp add: map_of_map)
qed

lemma map_of_build_row:
  assumes "k \<noteq> ''__proto__''"
  shows "map_of (build_row pobj cols i) k =
     (case map_of (rev cols) k of
        Some vs \<Rightarrow> Some (JStr (cell vs i))
      | None \<Rightarrow> map_of pobj k)"
proof -
  have "map_of (build_row pobj cols i) k
      = (map_of pobj ++ map_of (rev (map (\<lambda>c. (fst c, JStr (cell (snd c) i))) cols))) k"
    unfolding build_row_def using assms by (rule map_of_foldl_obj_set)
  then show ?thesis
    by (simp add: map_add_def map_of_rev_cells [where g = "\<lambda>vs. JStr (cell vs i)"] split: option.splits)
qed

lemma array_index_hd_nondigit:
  "k \<noteq> [] \<Longrightarrow> hd k \<notin> set ''0123456789'' \<Longrightarrow> array_index k = None"
  using array_index_nondigit [of "hd k" k] by simp

lemmas rows_defs =
  key_rows_def key_columns_def column_of_def pair_list_def persistent_object_def
  persistent_entry_def first_or_empty_def build_row_def obj_set_def
  array_index_hd_nondigit row_count_def cell_def key_value_def

lemma upt_3: "[0 ..< 3] = [0, 1, 2]"
  by (simp add: upt_rec)

lemma upt_2: "[0 ..< 2] = [0, 1]"
  by (simp add: upt_rec)

lemma example_columns_eval:
  "key_columns rt example_columns '','' = Inr [(''name'', [''x'', ''y'', ''z'']), (''age'', [''1'', ''2''])]"
  by (simp add: example_columns_def rows_defs tokenizer_defs)

lemma example_rows_eval:
  "key_rows rt example_columns '','' (JArr []) =
     Inr [ [(''name'', JStr ''x''), (''age'', JStr ''1'')],
          [(''name'', JStr ''y''), (''age'', JStr ''2'')],
          [(''name'', JStr ''z''), (''age'', JStr [])]]"
  by (simp add: key_rows_def example_columns_eval persistent_object_def pair_list_def
      row_count_def upt_3 build_row_def obj_set_def array_index_hd_nondigit
      cell_def)
lemma persistent_rows_eval:
  "key_rows rt example_columns '','' example_persistent =
     Inr [ [(''source'', JStr ''web''), (''name'', JStr ''x''), (''age'', JStr ''1'')],
          [(''source'', JStr ''web''), (''name'', JStr ''y''), (''age'', JStr ''2'')],
          [(''source'', JStr ''web''), (''name'', JStr ''z''), (''age'', JStr [])]]"
  by (simp add: example_columns_def example_persistent_def rows_defs tokenizer_defs upt_3)

lemma source_columns_eval:
  "key_columns rt source_columns '','' = Inr [(''source'', [''a'', ''b''])]"
  by (simp add: source_columns_def rows_defs tokenizer_defs)

lemma source_rows_eval:
  "key_rows rt source_columns '','' example_persistent =
     Inr [ [(''source'', JStr ''a'')], [(''source'', JStr ''b'')]]"
  by (simp add: source_columns_def example_persistent_def rows_defs tokenizer_defs upt_2)

text \<open>
  Claim C6, as stated, fails for a short column whose key a later column also has, and for
  a short column whose key is \<open>__proto__\<close>. With the columns \<open>age = 1\<close> and \<open>age = 7,8\<close> there are
  two rows, and row 1 has \<open>8\<close> under \<open>age\<close>, not the empty string that pads the first column.
  With the columns \<open>__proto__ = a\<close> and \<open>name = x,y\<close> there are two rows, and neither has a
  property \<open>__proto__\<close>: the short column contributes nothing, in row 1 as in row 0.
\<close>

theorem C6_counterexample:
  "key_columns example_rt repeated_columns '','' = Inr [(''age'', [''1'']), (''age'', [''7'', ''8''])]
   \<and> key_rows example_rt repeated_columns '','' (JArr [])
       = Inr [ [(''age'', JStr ''7'')], [(''age'', JStr ''8'')]]
   \<and> map_of ([ [(''age'', JStr ''7'')], [(''age'', JStr ''8'')]] ! 1) ''age'' \<noteq> Some (JStr [])
   \<and> key_columns example_rt proto_columns '',''
       = Inr [(''__proto__'', [''a'']), (''name'', [''x'', ''y''])]
   \<and> key_rows example_rt proto_columns '','' (JArr [])
       = Inr [ [(''name'', JStr ''x'')], [(''name'', JStr ''y'')]]
   \<and> map_of ([ [(''name'', JStr ''x'')], [(''name'', JStr ''y'')]] ! 1) ''__proto__'' = None"
  by (simp add: repeated_columns_def proto_columns_def rows_defs tokenizer_defs upt_2)

text \<open>
  Claim C6, amended. The row count is the greatest length of a token list among the
  surviving columns, and 0 when there is none; there are that many rows and that many lines.
  Take a surviving column whose key is not \<open>__proto__\<close> and is not the key of a later column.
  In row \<open>i\<close> the value under its key is its \<open>i\<close>-th token, or the empty string when its token
  list has no \<open>i\<close>-th token: a short column is padded, its tokens are not used again. (When
  several columns have the same key, the last of them is the one that counts.) With the
  columns \<open>name = x,y,z\<close> and \<open>age = 1,2\<close> there are 3 rows, and \<open>age\<close> is empty in row 2.
\<close>

theorem C6_row_count_and_padding:
  "(buildJsonlFromKeyLists rt pairs delimiter persistentPairs = Inr (lines, count) \<longrightarrow>
      (\<exists>cols rows. key_columns rt pairs delimiter = Inr cols
         \<and> key_rows rt pairs delimiter persistentPairs = Inr rows
         \<and> count = Max (insert 0 ((\<lambda>c. length (snd c)) ` set cols))
         \<and> length rows = count
         \<and> lines = map (\<lambda>obj. JSON_stringify rt (JObj obj)) rows))
   \<and> (key_columns rt pairs delimiter = Inr [] \<longrightarrow>
        buildJsonlFromKeyLists rt pairs delimiter persistentPairs = Inr ([], 0))
   \<and> (key_columns rt pairs delimiter = Inr cols
        \<and> key_rows rt pairs delimiter persistentPairs = Inr rows
        \<and> i < length rows \<and> j < length cols \<and> fst (cols ! j) \<noteq> ''__proto__''
        \<and> (\<forall>j'. j < j' \<and> j' < length cols \<longrightarrow> fst (cols ! j') \<noteq> fst (cols ! j)) \<longrightarrow>
      map_of (rows ! i) (fst (cols ! j))
        = Some (JStr (if i < length (snd (cols ! j)) then snd (cols ! j) ! i else [])))
   \<and> key_columns rt (JArr [key_value ''name'' ''x,y,z'', key_value ''age'' ''1,2'']) '',''
       = Inr [(''name'', [''x'', ''y'', ''z'']), (''age'', [''1'', ''2''])]
   \<and> key_rows rt (JArr [key_value ''name'' ''x,y,z'', key_value ''age'' ''1,2'']) '','' (JArr [])
       = Inr [ [(''name'', JStr ''x''), (''age'', JStr ''1'')],
              [(''name'', JStr ''y''), (''age'', JStr ''2'')],
              [(''name'', JStr ''z''), (''age'', JStr [])]]
   \<and> snd (projr (buildJsonlFromKeyLists rt
         (JArr [key_value ''name'' ''x,y,z'', key_value ''age'' ''1,2'']) '','' (JArr []))) = 3"
proof (intro conjI impI)
  assume b: "buildJsonlFromKeyLists rt pairs delimiter persistentPairs = Inr (lines, count)"
  then obtain rows where rows: "key_rows rt pairs delimiter persistentPairs = Inr rows"
    and l: "lines = map (\<lambda>obj. JSON_stringify rt (JObj obj)) rows" and c: "count = length rows"
    by (auto simp: buildJsonl_Inr)
  from key_rows_Inr [OF rows] obtain cols where cols: "key_columns rt pairs delimiter = Inr cols"
    and n: "length rows = row_count cols"
    by blast
  have "row_count cols = Max (insert 0 ((\<lambda>c. length (snd c)) ` set cols))"
    unfolding row_count_def by (rule foldl_max)
  then show "\<exists>cols rows. key_columns rt pairs delimiter = Inr cols
         \<and> key_rows rt pairs delimiter persistentPairs = Inr rows
         \<and> count = Max (insert 0 ((\<lambda>c. length (snd c)) ` set cols))
         \<and> length rows = count
         \<and> lines = map (\<lambda>obj. JSON_stringify rt (JObj obj)) rows"
    using rows cols l c n by auto
next
  assume "key_columns rt pairs delimiter = Inr []"
  then show "buildJsonlFromKeyLists rt pairs delimiter persistentPairs = Inr ([], 0)"
    by (simp add: buildJsonlFromKeyLists_def key_rows_def)
next
  assume a: "key_columns rt pairs delimiter = Inr cols
        \<and> key_rows rt pairs delimiter persistentPairs = Inr rows
        \<and> i < length rows \<and> j < length cols \<and> fst (cols ! j) \<noteq> ''__proto__''
        \<and> (\<forall>j'. j < j' \<and> j' < length cols \<longrightarrow> fst (cols ! j') \<noteq> fst (cols ! j))"
  then have rows: "key_rows rt pairs delimiter persistentPairs = Inr rows" by simp
  from key_rows_Inr [OF rows] a obtain pobj
    where r: "rows = map (build_row pobj cols) [0 ..< row_count cols]"
      and n: "length rows = row_count cols"
    by auto
  have "map_of (rev cols) (fst (cols ! j)) = Some (snd (cols ! j))"
    using a by (intro map_of_rev_nth) auto
  then have "map_of (build_row pobj cols i) (fst (cols ! j)) = Some (JStr (cell (snd (cols ! j)) i))"
    using a by (simp add: map_of_build_row)
  moreover have "rows ! i = build_row pobj cols i"
    using a n by (simp add: r)
  ultimately show "map_of (rows ! i) (fst (cols ! j))
        = Some (JStr (if i < length (snd (cols ! j)) then snd (cols ! j) ! i else []))"
    by (simp add: cell_def)
next
  show "key_columns rt (JArr [key_value ''name'' ''x,y,z'', key_value ''age'' ''1,2'']) '',''
       = Inr [(''name'', [''x'', ''y'', ''z'']), (''age'', [''1'', ''2''])]"
    using example_columns_eval [of rt] by (simp add: example_columns_def)
next
  show "key_rows rt (JArr [key_value ''name'' ''x,y,z'', key_value ''age'' ''1,2'']) '','' (JArr [])
       = Inr [ [(''name'', JStr ''x''), (''age'', JStr ''1'')],
              [(''name'', JStr ''y''), (''age'', JStr ''2'')],
              [(''name'', JStr ''z''), (''age'', JStr [])]]"
    using example_rows_eval [of rt] by (simp add: example_columns_def)
next
  show "snd (projr (buildJsonlFromKeyLists rt
         (JArr [key_value ''name'' ''x,y,z'', key_value ''age'' ''1,2'']) '','' (JArr []))) = 3"
    using example_rows_eval [of rt] by (simp add: example_columns_def buildJsonlFromKeyLists_def)
qed

theorem C6_witness:
  "buildJsonlFromKeyLists example_rt example_columns '','' example_persistent
     = Inr (map (\<lambda>obj. JSON_stringify example_rt (JObj obj))
              [ [(''source'', JStr ''web''), (''name'', JStr ''x''), (''age'', JStr ''1'')],
               [(''source'', JStr ''web''), (''name'', JStr ''y''), (''age'', JStr ''2'')],
               [(''source'', JStr ''web''), (''name'', JStr ''z''), (''age'', JStr [])]], 3)
   \<and> Max (insert 0 ((\<lambda>c. length (snd c)) ` set [(''name'', [''x'', ''y'', ''z'']), (''age'', [''1'', ''2''])]))
       = (3::nat)
   \<and> key_columns example_rt (JArr []) '','' = Inr []
   \<and> buildJsonlFromKeyLists example_rt (JArr []) '','' example_persistent = Inr ([], 0)
   \<and> map_of ([ [(''source'', JStr ''web''), (''name'', JStr ''x''), (''age'', JStr ''1'')],
              [(''source'', JStr ''web''), (''name'', JStr ''y''), (''age'', JStr ''2'')],
              [(''source'', JStr ''web''), (''name'', JStr ''z''), (''age'', JStr [])]] ! 2) ''age''
       = Some (JStr [])"
proof -
  let ?rows = "[ [(''source'', JStr ''web''), (''name'', JStr ''x''), (''age'', JStr ''1'')],
               [(''source'', JStr ''web''), (''name'', JStr ''y''), (''age'', JStr ''2'')],
               [(''source'', JStr ''web''), (''name'', JStr ''z''), (''age'', JStr [])]]"
  let ?cols = "[(''name'', [''x'', ''y'', ''z'']), (''age'', [''1'', ''2''])]"
  have b: "buildJsonlFromKeyLists example_rt example_columns '','' example_persistent
     = Inr (map (\<lambda>obj. JSON_stringify example_rt (JObj obj)) ?rows, 3)"
    by (simp add: buildJsonlFromKeyLists_def persistent_rows_eval)
  from C6_row_count_and_padding [THEN conjunct1, rule_format, OF b]
  have m: "Max (insert 0 ((\<lambda>c. length (snd c)) ` set ?cols)) = (3::nat)"
    by (simp add: example_columns_eval)
  have e: "key_columns example_rt (JArr []) '','' = Inr []"
    by (simp add: key_columns_def pair_list_def)
  from C6_row_count_and_padding [THEN conjunct2, THEN conjunct1, rule_format, OF e]
  have z: "buildJsonlFromKeyLists example_rt (JArr []) '','' example_persistent = Inr ([], 0)" .
  have h: "key_columns example_rt example_columns '','' = Inr ?cols
        \<and> key_rows example_rt example_columns '','' example_persistent = Inr ?rows
        \<and> 2 < length ?rows \<and> 1 < length ?cols \<and> fst (?cols ! 1) \<noteq> ''__proto__''
        \<and> (\<forall>j'. 1 < j' \<and> j' < length ?cols \<longrightarrow> fst (?cols ! j') \<noteq> fst (?cols ! 1))"
    by (simp add: example_columns_eval persistent_rows_eval)
  from C6_row_count_and_padding [THEN conjunct2, THEN conjunct2, THEN conjunct1, rule_format, OF h]
  have p: "map_of (?rows ! 2) ''age'' = Some (JStr [])"
    by simp
  from b m e z p show ?thesis by simp
qed

text \<open>
  Claim C7, as stated, fails when two persistent fields have the same key: the later one
  replaces the earlier one, so the first token of the earlier field is in no row. With the
  persistent fields \<open>source = web\<close> and \<open>source = app\<close> and no column named \<open>source\<close>,
  row 0 has \<open>app\<close> under \<open>source\<close>.
\<close>

theorem C7_counterexample:
  "toStr example_rt (js_get (key_value ''source'' ''web'') ''key'') = Inr ''source''
   \<and> trim ''source'' = ''source''
   \<and> splitValueList example_rt (js_get (key_value ''source'' ''web'') ''value'') '','' = Inr [''web'']
   \<and> key_columns example_rt example_columns '',''
       = Inr [(''name'', [''x'', ''y'', ''z'']), (''age'', [''1'', ''2''])]
   \<and> map_of (rev [(''name'', [''x'', ''y'', ''z'']), (''age'', [''1'', ''2''])]) ''source'' = None
   \<and> key_rows example_rt example_columns '','' repeated_persistent
       = Inr [ [(''source'', JStr ''app''), (''name'', JStr ''x''), (''age'', JStr ''1'')],
              [(''source'', JStr ''app''), (''name'', JStr ''y''), (''age'', JStr ''2'')],
              [(''source'', JStr ''app''), (''name'', JStr ''z''), (''age'', JStr [])]]
   \<and> map_of ([ [(''source'', JStr ''app''), (''name'', JStr ''x''), (''age'', JStr ''1'')],
              [(''source'', JStr ''app''), (''name'', JStr ''y''), (''age'', JStr ''2'')],
              [(''source'', JStr ''app''), (''name'', JStr ''z''), (''age'', JStr [])]] ! 0) ''source''
       = Some (JStr ''app'')
   \<and> map_of ([ [(''source'', JStr ''app''), (''name'', JStr ''x''), (''age'', JStr ''1'')],
              [(''source'', JStr ''app''), (''name'', JStr ''y''), (''age'', JStr ''2'')],
              [(''source'', JStr ''app''), (''name'', JStr ''z''), (''age'', JStr [])]] ! 0) ''source''
       \<noteq> Some (JStr ''web'')"
proof -
  have r: "key_rows example_rt example_columns '','' repeated_persistent
       = Inr [ [(''source'', JStr ''app''), (''name'', JStr ''x''), (''age'', JStr ''1'')],
              [(''source'', JStr ''app''), (''name'', JStr ''y''), (''age'', JStr ''2'')],
              [(''source'', JStr ''app''), (''name'', JStr ''z''), (''age'', JStr [])]]"
    by (simp add: example_columns_def repeated_persistent_def rows_defs tokenizer_defs upt_3)
  have k: "toStr example_rt (js_get (key_value ''source'' ''web'') ''key'') = Inr ''source''
     \<and> trim ''source'' = ''source''"
    by (simp add: key_value_def tokenizer_defs)
  have v: "splitValueList example_rt (js_get (key_value ''source'' ''web'') ''value'') '','' = Inr [''web'']"
    by (simp add: key_value_def tokenizer_defs)
  show ?thesis using r k v by (simp add: example_columns_eval)
qed

text \<open>
  Claim C7, amended. Take a persistent field whose trimmed key is not empty, is not
  \<open>__proto__\<close>, and is not the trimmed key of a later persistent field. In every row, the
  value under that key is the first token of the field's tokenized value, unless a surviving
  column has the same key: then it is that column's value for the row (of the last such
  column). Persistent fields are applied first, then the columns.
\<close>

theorem C7_persistent_fields:
  assumes "persistentPairs = JArr ps" and "j < length ps"
    and "toStr rt (js_get (ps ! j) ''key'') = Inr ks"
    and "k = trim ks" and "k \<noteq> []" and "k \<noteq> ''__proto__''"
    and "\<forall>j' ks'. j < j' \<and> j' < length ps \<and> toStr rt (js_get (ps ! j') ''key'') = Inr ks'
           \<longrightarrow> trim ks' \<noteq> k"
    and "key_rows rt pairs delimiter persistentPairs = Inr rows"
    and "i < length rows"
  shows "\<exists>cols toks. key_columns rt pairs delimiter = Inr cols
           \<and> splitValueList rt (js_get (ps ! j) ''value'') delimiter = Inr toks
           \<and> map_of (rows ! i) k =
               Some (JStr (case map_of (rev cols) k of
                             None \<Rightarrow> hd toks
                           | Some vs \<Rightarrow> cell vs i))"
proof -
  from key_rows_Inr [OF assms(8)] assms(9) obtain cols pobj
    where cols: "key_columns rt pairs delimiter = Inr cols"
      and n: "length rows = row_count cols"
      and pobj: "persistent_object rt delimiter persistentPairs = Inr pobj"
      and r: "rows = map (build_row pobj cols) [0 ..< row_count cols]"
    by auto
  have "\<exists>toks. splitValueList rt (js_get (ps ! j) ''value'') delimiter = Inr toks
           \<and> map_of pobj k = Some (JStr (hd toks))"
    using pobj assms(2-7) unfolding assms(1) by (intro persistent_object_lookup) auto
  then obtain toks
    where toks: "splitValueList rt (js_get (ps ! j) ''value'') delimiter = Inr toks"
      and p: "map_of pobj k = Some (JStr (hd toks))"
    by blast
  have "rows ! i = build_row pobj cols i"
    using assms(9) n by (simp add: r)
  then have "map_of (rows ! i) k =
               Some (JStr (case map_of (rev cols) k of
                             None \<Rightarrow> hd toks
                           | Some vs \<Rightarrow> cell vs i))"
    using p assms(6) by (simp add: map_of_build_row split: option.splits)
  then show ?thesis using cols toks by blast
qed

theorem C7_witness:
  "example_persistent = JArr [key_value ''source'' ''web'']
   \<and> toStr example_rt (js_get ([key_value ''source'' ''web''] ! 0) ''key'') = Inr ''source''
   \<and> ''source'' = trim ''source''
   \<and> key_rows example_rt example_columns '','' example_persistent
       = Inr [ [(''source'', JStr ''web''), (''name'', JStr ''x''), (''age'', JStr ''1'')],
              [(''source'', JStr ''web''), (''name'', JStr ''y''), (''age'', JStr ''2'')],
              [(''source'', JStr ''web''), (''name'', JStr ''z''), (''age'', JStr [])]]
   \<and> map_of ([ [(''source'', JStr ''web''), (''name'', JStr ''x''), (''age'', JStr ''1'')],
              [(''source'', JStr ''web''), (''name'', JStr ''y''), (''age'', JStr ''2'')],
              [(''source'', JStr ''web''), (''name'', JStr ''z''), (''age'', JStr [])]] ! 1) ''source''
       = Some (JStr ''web'')
   \<and> key_rows example_rt source_columns '','' example_persistent
       = Inr [ [(''source'', JStr ''a'')], [(''source'', JStr ''b'')]]
   \<and> map_of ([ [(''source'', JStr ''a'')], [(''source'', JStr ''b'')]] ! 1) ''source''
       = Some (JStr ''b'')"
proof -
  let ?rows = "[ [(''source'', JStr ''web''), (''name'', JStr ''x''), (''age'', JStr ''1'')],
              [(''source'', JStr ''web''), (''name'', JStr ''y''), (''age'', JStr ''2'')],
              [(''source'', JStr ''web''), (''name'', JStr ''z''), (''age'', JStr [])]]"
  have a: "example_persistent = JArr [key_value ''source'' ''web'']"
    by (simp add: example_persistent_def)
  have b: "(0::nat) < length [key_value ''source'' ''web'']" by simp
  have c: "toStr example_rt (js_get ([key_value ''source'' ''web''] ! 0) ''key'') = Inr ''source''"
    by (simp add: key_value_def tokenizer_defs)
  have c': "''source'' = trim ''source''"
    by (simp add: trim_def js_space_def)
  have d: "''source'' \<noteq> []" by simp
  have d': "''source'' \<noteq> ''__proto__''" by simp
  have e: "\<forall>j' ks'. 0 < j' \<and> j' < length [key_value ''source'' ''web'']
             \<and> toStr example_rt (js_get ([key_value ''source'' ''web''] ! j') ''key'') = Inr ks'
             \<longrightarrow> trim ks' \<noteq> ''source''"
    by simp
  have f: "key_rows example_rt example_columns '','' example_persistent = Inr ?rows"
    by (rule persistent_rows_eval)
  have f': "(1::nat) < length ?rows" by simp
  from C7_persistent_fields [OF a b c c' d d' e f f']
  have r: "map_of (?rows ! 1) ''source'' = Some (JStr ''web'')"
    by (auto simp: example_columns_eval key_value_def tokenizer_defs)
  have g: "key_rows example_rt source_columns '','' example_persistent
       = Inr [ [(''source'', JStr ''a'')], [(''source'', JStr ''b'')]]"
    by (rule source_rows_eval)
  have g': "(1::nat) < length [ [(''source'', JStr ''a'')], [(''source'', JStr ''b'')]]" by simp
  from C7_persistent_fields [OF a b c c' d d' e g g']
  have s: "map_of ([ [(''source'', JStr ''a'')], [(''source'', JStr ''b'')]] ! 1) ''source''
       = Some (JStr ''b'')"
    by (auto simp: source_columns_eval cell_def)
  from a c c' f r g s show ?thesis by simp
qed

section \<open>Properties of the normalizer\<close>

lemma SerializeJSONProperty_defined: "v \<noteq> JUndefined \<Longrightarrow> SerializeJSONProperty rt v \<noteq> None"
  by (cases v) auto

lemmas stringify_defs =
  JSON_stringify_def QuoteJSONString_def quote_unit_def hex_digit_def Number_toString_def

lemma digits_small: "n < 10 \<Longrightarrow> digits n = [''0123456789'' ! n]"
  by (subst digits.simps) simp

lemma filter_all_Inr:
  "\<forall>x \<in> set xs. \<exists>b. p x = Inr b \<Longrightarrow> filter_all p xs = Inr (filter (\<lambda>x. p x = Inr True) xs)"
  by (induction xs) auto

lemma filter_all_Inl:
  "filter_all p xs = Inl e \<Longrightarrow> \<exists>x \<in> set xs. p x = Inl e"
  by (induction xs) (auto split: sum.splits)

text \<open>
  Given a sequence in which every element that is not null or undefined has a string form,
  the normalizer drops the elements that are null or undefined and those whose string form
  trims to the empty string; every other element gives exactly one line, in the order of the
  sequence: a string element its trimmed text, any other element its JSON serialization.
  When the normalizer throws, the error is that of an element with no string form.
\<close>

lemma toJsonlLines_sequence:
  assumes "\<forall>x \<in> set xs. x \<noteq> JNull \<and> x \<noteq> JUndefined \<longrightarrow> (\<exists>s. js_String rt x = Inr s)"
  shows "toJsonlLines rt (JArr xs)
     = Inr (map (\<lambda>x. case x of JStr t \<Rightarrow> trim t | _ \<Rightarrow> JSON_stringify rt x)
         (filter (\<lambda>x. x \<noteq> JNull \<and> x \<noteq> JUndefined \<and> (\<exists>s. js_String rt x = Inr s \<and> trim s \<noteq> [])) xs))"
proof -
  have d: "\<forall>x \<in> set xs. \<exists>b. keep_element rt x = Inr b"
    using assms by (auto simp: keep_element_def)
  have k: "keep_element rt x = Inr True
      \<longleftrightarrow> x \<noteq> JNull \<and> x \<noteq> JUndefined \<and> (\<exists>s. js_String rt x = Inr s \<and> trim s \<noteq> [])" for x
    by (auto simp: keep_element_def split: sum.splits)
  show ?thesis
    by (simp add: toJsonlLines_def filter_all_Inr [OF d] k)
qed

lemma toJsonlLines_sequence_throws:
  assumes "toJsonlLines rt (JArr xs) = Inl e"
  shows "\<exists>x \<in> set xs. x \<noteq> JNull \<and> x \<noteq> JUndefined \<and> js_String rt x = Inl e"
proof -
  from assms have "filter_all (keep_element rt) xs = Inl e"
    by (simp add: toJsonlLines_def split: sum.splits)
  then have "\<exists>x \<in> set xs. keep_element rt x = Inl e"
    by (rule filter_all_Inl)
  then obtain x where "x \<in> set xs" "keep_element rt x = Inl e"
    by blast
  then show ?thesis
    by (auto simp: keep_element_def split: if_splits sum.splits)
qed

lemma example_items_lines:
  "toJsonlLines rt (JArr [JStr ''  '', JObj [(''a'', JNum (Fin 1))], JStr ''raw''])
     = Inr [''{\"a\":1}'', ''raw'']"
  by (simp add: toJsonlLines_def keep_element_def trim_def js_space_def stringify_defs digits_small)

section \<open>Properties of the response parser and the reconciler\<close>

lemma split_loop_skip:
  "c \<notin> set l \<Longrightarrow> split_loop (literal_match [c]) acc (l @ rest) = split_loop (literal_match [c]) (rev l @ acc) rest"
  by (induction l arbitrary: acc) (auto simp: literal_match_def startsWith_def)

lemma split_loop_sep:
  "split_loop (literal_match [c]) acc (c # rest) = rev acc # split_loop (literal_match [c]) [] rest"
  by (simp add: literal_match_def startsWith_def)

lemma split_loop_join:
  "\<forall>l\<in>set (l0 # ls). c \<notin> set l \<Longrightarrow> split_loop (literal_match [c]) acc (join [c] (l0 # ls)) = (rev acc @ l0) # ls"
proof (induction ls arbitrary: l0 acc)
  case Nil
  then show ?case using split_loop_skip [of c l0 acc "[]"] by simp
next
  case (Cons l1 ls)
  have "split_loop (literal_match [c]) acc (join [c] (l0 # l1 # ls))
      = split_loop (literal_match [c]) (rev l0 @ acc) (c # join [c] (l1 # ls))"
    using Cons.prems split_loop_skip [of c l0 acc "c # join [c] (l1 # ls)"] by simp
  also have "\<dots> = (rev acc @ l0) # split_loop (literal_match [c]) [] (join [c] (l1 # ls))"
    by (subst split_loop_sep) simp
  also have "\<dots> = (rev acc @ l0) # l1 # ls"
    using Cons.prems Cons.IH [of l1 "[]"] by simp
  finally show ?case .
qed

lemma string_split_join:
  assumes "ls \<noteq> []" "\<forall>l\<in>set ls. c \<notin> set l"
  shows "string_split [c] (join [c] ls) = ls"
proof -
  obtain l0 ls' where ls: "ls = l0 # ls'" using assms(1) by (cases ls) auto
  show ?thesis
  proof (cases "join [c] ls = []")
    case True
    then have "ls = ['''']" unfolding ls by (cases ls') auto
    then show ?thesis by (simp add: string_split_def)
  next
    case False
    then show ?thesis
      using assms(2) split_loop_join [of l0 ls' c "[]"]
      unfolding ls by (simp add: string_split_def literal_match_def)
  qed
qed

lemma parse_response_lines:
  assumes "try_json_array rt (trim raw) = None \<or> try_json_array rt (trim raw) = Some []"
    and "trim raw \<noteq> []"
  shows "parse_response rt raw =
     map (\<lambda>l. case JSON_parse rt l of
                 Some v \<Rightarrow> v
               | None \<Rightarrow> JObj [(''status'', JStr ''error''), (''raw'', JStr l)])
       (filter (\<lambda>l. l \<noteq> []) (string_split [CHR 0x0A] (trim raw)))"
  using assms by (auto simp: parse_response_def Let_def)

text \<open>
  Claim C8. When the response body is read line by line (trimmed, it is not empty and was
  not read as a JSON array with elements), the result has one entry for each non-empty line
  of the trimmed body, in the order of the lines: the parsed value of the line, or, for a
  line that is not valid JSON, the record with \<open>status\<close> \<open>error\<close> and \<open>raw\<close> the line itself.
  A line that fails does not stop the lines after it. The second part says the same for a
  body given by its lines.
\<close>

theorem C8_line_parsing:
  "((try_json_array rt (trim raw) = None \<or> try_json_array rt (trim raw) = Some [])
      \<and> trim raw \<noteq> [] \<longrightarrow>
      parse_response rt raw =
        map (\<lambda>l. case JSON_parse rt l of
                    Some v \<Rightarrow> v
                  | None \<Rightarrow> JObj [(''status'', JStr ''error''), (''raw'', JStr l)])
          (filter (\<lambda>l. l \<noteq> []) (string_split [CHR 0x0A] (trim raw))))
   \<and> (ls \<noteq> [] \<and> (\<forall>l\<in>set ls. l \<noteq> [] \<and> CHR 0x0A \<notin> set l)
        \<and> trim (join [CHR 0x0A] ls) = join [CHR 0x0A] ls
        \<and> (try_json_array rt (join [CHR 0x0A] ls) = None
            \<or> try_json_array rt (join [CHR 0x0A] ls) = Some []) \<longrightarrow>
      parse_response rt (join [CHR 0x0A] ls) =
        map (\<lambda>l. case JSON_parse rt l of
                    Some v \<Rightarrow> v
                  | None \<Rightarrow> JObj [(''status'', JStr ''error''), (''raw'', JStr l)]) ls)"
proof (intro conjI impI)
  assume "(try_json_array rt (trim raw) = None \<or> try_json_array rt (trim raw) = Some [])
      \<and> trim raw \<noteq> []"
  then show "parse_response rt raw =
        map (\<lambda>l. case JSON_parse rt l of
                    Some v \<Rightarrow> v
                  | None \<Rightarrow> JObj [(''status'', JStr ''error''), (''raw'', JStr l)])
          (filter (\<lambda>l. l \<noteq> []) (string_split [CHR 0x0A] (trim raw)))"
    by (intro parse_response_lines) auto
next
  assume a: "ls \<noteq> [] \<and> (\<forall>l\<in>set ls. l \<noteq> [] \<and> CHR 0x0A \<notin> set l)
        \<and> trim (join [CHR 0x0A] ls) = join [CHR 0x0A] ls
        \<and> (try_json_array rt (join [CHR 0x0A] ls) = None
            \<or> try_json_array rt (join [CHR 0x0A] ls) = Some [])"
  then obtain l0 ls' where ls: "ls = l0 # ls'" by (cases ls) auto
  have ne: "join [CHR 0x0A] ls \<noteq> []"
    using a unfolding ls by (cases ls') auto
  have split: "string_split [CHR 0x0A] (join [CHR 0x0A] ls) = ls"
    using a by (intro string_split_join) auto
  have keep: "filter (\<lambda>l. l \<noteq> []) ls = ls"
    using a by (simp add: filter_id_conv)
  have "parse_response rt (join [CHR 0x0A] ls) =
        map (\<lambda>l. case JSON_parse rt l of
                    Some v \<Rightarrow> v
                  | None \<Rightarrow> JObj [(''status'', JStr ''error''), (''raw'', JStr l)])
          (filter (\<lambda>l. l \<noteq> []) (string_split [CHR 0x0A] (trim (join [CHR 0x0A] ls))))"
    using a ne by (intro parse_response_lines) auto
  then show "parse_response rt (join [CHR 0x0A] ls) =
        map (\<lambda>l. case JSON_parse rt l of
                    Some v \<Rightarrow> v
                  | None \<Rightarrow> JObj [(''status'', JStr ''error''), (''raw'', JStr l)]) ls"
    using a split keep by simp
qed

theorem C8_witness:
  "example_response_lines \<noteq> []
   \<and> trim (join [CHR 0x0A] example_response_lines) = join [CHR 0x0A] example_response_lines
   \<and> try_json_array example_rt (join [CHR 0x0A] example_response_lines) = None
   \<and> JSON_parse example_rt ''not json'' = None
   \<and> parse_response example_rt (join [CHR 0x0A] example_response_lines) =
       [JObj [(''status'', JStr ''success''), (''id'', JStr ''7'')],
        JObj [(''status'', JStr ''error''), (''raw'', JStr ''not json'')],
        JObj [(''status'', JStr ''success''), (''id'', JStr ''8'')]]"
proof -
  have a: "example_response_lines \<noteq> []" by (simp add: example_response_lines_def)
  have b: "\<forall>l\<in>set example_response_lines. l \<noteq> [] \<and> CHR 0x0A \<notin> set l"
    by (simp add: example_response_lines_def)
  have c: "trim (join [CHR 0x0A] example_response_lines) = join [CHR 0x0A] example_response_lines"
    by (simp add: example_response_lines_def trim_def js_space_def)
  have d: "try_json_array example_rt (join [CHR 0x0A] example_response_lines) = None"
    by (simp add: example_response_lines_def try_json_array_def startsWith_def)
  have e: "JSON_parse example_rt ''not json'' = None"
    by (simp add: example_rt_def example_json_def)
  from C8_line_parsing [of example_rt _ example_response_lines, THEN conjunct2, rule_format] a b c d
  have "parse_response example_rt (join [CHR 0x0A] example_response_lines) =
        map (\<lambda>l. case JSON_parse example_rt l of
                    Some v \<Rightarrow> v
                  | None \<Rightarrow> JObj [(''status'', JStr ''error''), (''raw'', JStr l)])
          example_response_lines"
    by blast
  then have "parse_response example_rt (join [CHR 0x0A] example_response_lines) =
       [JObj [(''status'', JStr ''success''), (''id'', JStr ''7'')],
        JObj [(''status'', JStr ''error''), (''raw'', JStr ''not json'')],
        JObj [(''status'', JStr ''success''), (''id'', JStr ''8'')]]"
    by (simp add: example_response_lines_def example_rt_def example_json_def)
  with a c d e show ?thesis by simp
qed

lemma is_success_iff:
  "is_success r \<longleftrightarrow> js_get r ''status'' = JStr ''success'' \<and> truthy (js_get r ''id'')"
  by (cases r) (auto simp: is_success_def js_and_def)

lemma array_index_prefixed: "array_index (CHR ''_'' # k) = None"
  by (rule array_index_nondigit [of "CHR ''_''"]) simp_all

lemma foldl_prefix_keys:
  assumes "distinct (map fst es)"
    and "\<forall>e\<in>set es. (''_p_'' @ fst e) \<notin> fst ` set acc"
  shows "foldl (\<lambda>mapped e. obj_set (''_p_'' @ fst e) (snd e) mapped) acc es
           = acc @ map (\<lambda>e. (''_p_'' @ fst e, snd e)) es"
  using assms
proof (induction es arbitrary: acc)
  case Nil
  then show ?case by simp
next
  case (Cons e es)
  have step: "obj_set (''_p_'' @ fst e) (snd e) acc = acc @ [(''_p_'' @ fst e, snd e)]"
    using Cons.prems(2) by (simp add: obj_set_def array_index_prefixed)
  have "\<forall>x\<in>set es. (''_p_'' @ fst x) \<notin> fst ` set (acc @ [(''_p_'' @ fst e, snd e)])"
    using Cons.prems by (auto simp: image_iff)
  then show ?case
    using Cons.prems(1) Cons.IH [of "acc @ [(''_p_'' @ fst e, snd e)]"] step by simp
qed

lemma prefix_keys_entries:
  assumes "distinct (map fst (Object_entries (js_or r (JObj []))))"
  shows "prefix_keys r = JObj (map (\<lambda>e. (''_p_'' @ fst e, snd e)) (Object_entries (js_or r (JObj []))))"
  using assms foldl_prefix_keys [of "Object_entries (js_or r (JObj []))" "[]"]
  by (simp add: prefix_keys_def)

text \<open>
  Claim C2, as stated, fails when the id of a success has no string form. The entry
  \<open>{"status":"success","id":{"toString":1}}\<close> counts as a success, its id being an object and
  so truthy; the handler throws when it turns the id into a string, and the invocation
  returns the failure output, which has no \<open>created_ids\<close>.
\<close>

theorem C2_counterexample:
  "is_success (JObj [(''status'', JStr ''success''), (''id'', JObj [(''toString'', JNum (Fin 1))])])
   \<and> reconcile example_rt example_props 1
        [JObj [(''status'', JStr ''success''), (''id'', JObj [(''toString'', JNum (Fin 1))])]]
       = Inl (JsError ''TypeError'' ''Cannot convert object to primitive value'')
   \<and> settle example_rt example_props ''{}''
        (Inr [JObj [(''status'', JStr ''success''), (''id'', JObj [(''toString'', JNum (Fin 1))])]])
       = Resolved (JObj [(''returned_error'', JBool True),
                         (''error_message'', JStr ''Cannot convert object to primitive value''),
                         (''object_type_text'', JStr ''order'')])
   \<and> js_get (JObj [(''returned_error'', JBool True),
                   (''error_message'', JStr ''Cannot convert object to primitive value''),
                   (''object_type_text'', JStr ''order'')]) ''created_ids'' = JUndefined"
  by (simp add: is_success_def js_and_def reconcile_def settle_def on_rejection_def
      example_rt_def example_props_def)

text \<open>
  Claim C2, amended. An entry of the response counts as a success exactly when its \<open>status\<close>
  is the string \<open>success\<close> and its \<open>id\<close> is truthy. When the id of every success has a string
  form, \<open>created_count\<close> is the number of successes, \<open>created_ids\<close> their ids as strings in
  the order of the response, and \<open>created_data\<close> has one object for each entry of the
  response, success or not, in the same order: the entry with \<open>_p_\<close> put before each of its
  keys, and the values as they were. The body
  \<open>[{"status":"success","id":"1"},{"status":"error"}]\<close> gives the count 1, the ids \<open>["1"]\<close>
  and two objects with prefixed keys. When the id of some success has no string form, the
  invocation returns the failure output with the message of the error instead.
\<close>

theorem C2_reconcile:
  "(is_success r \<longleftrightarrow> js_get r ''status'' = JStr ''success'' \<and> truthy (js_get r ''id''))
   \<and> (map_all (\<lambda>s. js_String rt (js_get s ''id'')) (filter is_success results) = Inr ids \<longrightarrow>
        (\<exists>out. reconcile rt props n results = Inr out
           \<and> settle rt props ndjsonBody (Inr results)
               = Resolved (projr (reconcile rt props (requested_count_of ndjsonBody) results))
           \<and> js_get out ''created_count''
               = JNum (Fin (of_nat (length (filter is_success results))))
           \<and> js_get out ''created_ids'' = JArr (map JStr ids)
           \<and> js_get out ''created_data'' = JArr (map prefix_keys results))
        \<and> length ids = length (filter is_success results)
        \<and> (\<forall>i < length ids.
              js_String rt (js_get (filter is_success results ! i) ''id'') = Inr (ids ! i)))
   \<and> (map_all (\<lambda>s. js_String rt (js_get s ''id'')) (filter is_success results) = Inl e \<longrightarrow>
        reconcile rt props n results = Inl e
        \<and> settle rt props ndjsonBody (Inr results) = Resolved (on_rejection props e))
   \<and> (\<exists>es. prefix_keys r = JObj es)
   \<and> (distinct (map fst es) \<longrightarrow>
        prefix_keys (JObj es) = JObj (map (\<lambda>e. (''_p_'' @ fst e, snd e)) es))
   \<and> (JSON_parse rt ''[{\"status\":\"success\",\"id\":\"1\"},{\"status\":\"error\"}]''
          = Some (JArr [JObj [(''status'', JStr ''success''), (''id'', JStr ''1'')],
                        JObj [(''status'', JStr ''error'')]]) \<longrightarrow>
        reconcile rt props n
           (parse_response rt ''[{\"status\":\"success\",\"id\":\"1\"},{\"status\":\"error\"}]'')
          = Inr (JObj [(''returned_error'', JBool False),
                       (''requested_count'', JNum (Fin (of_nat n))),
                       (''created_count'', JNum (Fin 1)),
                       (''created_ids'', JArr [JStr ''1'']),
                       (''created_data'',
                          JArr [JObj [(''_p_status'', JStr ''success''), (''_p_id'', JStr ''1'')],
                                JObj [(''_p_status'', JStr ''error'')]]),
                       (''object_type_text'', object_type props),
                       (''created_data_id'', JArr [JStr ''1''])]))"
proof -
  have a: "is_success r \<longleftrightarrow> js_get r ''status'' = JStr ''success'' \<and> truthy (js_get r ''id'')"
    by (rule is_success_iff)
  have b: "(\<exists>out. reconcile rt props n results = Inr out
           \<and> settle rt props ndjsonBody (Inr results)
               = Resolved (projr (reconcile rt props (requested_count_of ndjsonBody) results))
           \<and> js_get out ''created_count''
               = JNum (Fin (of_nat (length (filter is_success results))))
           \<and> js_get out ''created_ids'' = JArr (map JStr ids)
           \<and> js_get out ''created_data'' = JArr (map prefix_keys results))
        \<and> length ids = length (filter is_success results)
        \<and> (\<forall>i < length ids.
              js_String rt (js_get (filter is_success results ! i) ''id'') = Inr (ids ! i))"
    if m: "map_all (\<lambda>s. js_String rt (js_get s ''id'')) (filter is_success results) = Inr ids"
  proof -
    have l: "length ids = length (filter is_success results)"
      using m by (rule map_all_Inr_length)
    have "\<forall>i < length ids.
              js_String rt (js_get (filter is_success results ! i) ''id'') = Inr (ids ! i)"
      using map_all_Inr_nth [OF m] l by simp
    then show ?thesis
      using l m by (simp add: reconcile_def settle_def Let_def)
  qed
  have c: "reconcile rt props n results = Inl e
        \<and> settle rt props ndjsonBody (Inr results) = Resolved (on_rejection props e)"
    if "map_all (\<lambda>s. js_String rt (js_get s ''id'')) (filter is_success results) = Inl e"
    using that by (simp add: reconcile_def settle_def Let_def)
  have e: "\<exists>es. prefix_keys r = JObj es"
    by (simp add: prefix_keys_def)
  have f: "prefix_keys (JObj es) = JObj (map (\<lambda>e. (''_p_'' @ fst e, snd e)) es)"
    if "distinct (map fst es)" for es
    using that prefix_keys_entries [of "JObj es"] by (simp add: js_or_def)
  have g: "reconcile rt props n
           (parse_response rt ''[{\"status\":\"success\",\"id\":\"1\"},{\"status\":\"error\"}]'')
          = Inr (JObj [(''returned_error'', JBool False),
                       (''requested_count'', JNum (Fin (of_nat n))),
                       (''created_count'', JNum (Fin 1)),
                       (''created_ids'', JArr [JStr ''1'']),
                       (''created_data'',
                          JArr [JObj [(''_p_status'', JStr ''success''), (''_p_id'', JStr ''1'')],
                                JObj [(''_p_status'', JStr ''error'')]]),
                       (''object_type_text'', object_type props),
                       (''created_data_id'', JArr [JStr ''1''])])"
    if p: "JSON_parse rt ''[{\"status\":\"success\",\"id\":\"1\"},{\"status\":\"error\"}]''
          = Some (JArr [JObj [(''status'', JStr ''success''), (''id'', JStr ''1'')],
                        JObj [(''status'', JStr ''error'')]])"
  proof -
    have t: "trim ''[{\"status\":\"success\",\"id\":\"1\"},{\"status\":\"error\"}]''
        = ''[{\"status\":\"success\",\"id\":\"1\"},{\"status\":\"error\"}]''"
      by (simp add: trim_def js_space_def)
    have r: "parse_response rt ''[{\"status\":\"success\",\"id\":\"1\"},{\"status\":\"error\"}]''
        = [JObj [(''status'', JStr ''success''), (''id'', JStr ''1'')], JObj [(''status'', JStr ''error'')]]"
      unfolding parse_response_def t Let_def try_json_array_def using p
      by (simp add: startsWith_def)
    have s1: "is_success (JObj [(''status'', JStr ''success''), (''id'', JStr ''1'')])"
      by (simp add: is_success_iff)
    have s2: "\<not> is_success (JObj [(''status'', JStr ''error'')])"
      by (simp add: is_success_iff)
    have k1: "prefix_keys (JObj [(''status'', JStr ''success''), (''id'', JStr ''1'')])
        = JObj [(''_p_status'', JStr ''success''), (''_p_id'', JStr ''1'')]"
      using f [of "[(''status'', JStr ''success''), (''id'', JStr ''1'')]"] by simp
    have k2: "prefix_keys (JObj [(''status'', JStr ''error'')]) = JObj [(''_p_status'', JStr ''error'')]"
      using f [of "[(''status'', JStr ''error'')]"] by simp
    show ?thesis
      unfolding r using s1 s2 k1 k2 by (simp add: reconcile_def Let_def)
  qed
  show ?thesis
    using a b c e f g by blast
qed

theorem C2_witness:
  "JSON_parse example_rt ''[{\"status\":\"success\",\"id\":\"1\"},{\"status\":\"error\"}]''
     = Some (JArr [JObj [(''status'', JStr ''success''), (''id'', JStr ''1'')],
                   JObj [(''status'', JStr ''error'')]])
   \<and> reconcile example_rt example_props 2
        (parse_response example_rt ''[{\"status\":\"success\",\"id\":\"1\"},{\"status\":\"error\"}]'')
       = Inr (JObj [(''returned_error'', JBool False),
                    (''requested_count'', JNum (Fin 2)),
                    (''created_count'', JNum (Fin 1)),
                    (''created_ids'', JArr [JStr ''1'']),
                    (''created_data'',
                       JArr [JObj [(''_p_status'', JStr ''success''), (''_p_id'', JStr ''1'')],
                             JObj [(''_p_status'', JStr ''error'')]]),
                    (''object_type_text'', JStr ''order''),
                    (''created_data_id'', JArr [JStr ''1''])])
   \<and> map_all (\<lambda>s. js_String example_rt (js_get s ''id''))
        (filter is_success
           [JObj [(''status'', JStr ''success''), (''id'', JNum (Fin 7))],
            JObj [(''status'', JStr ''failed''), (''id'', JStr ''8'')],
            JObj [(''status'', JStr ''success''), (''id'', JStr ''9'')]]) = Inr [''7'', ''9'']
   \<and> js_get (projr (reconcile example_rt example_props 3
           [JObj [(''status'', JStr ''success''), (''id'', JNum (Fin 7))],
            JObj [(''status'', JStr ''failed''), (''id'', JStr ''8'')],
            JObj [(''status'', JStr ''success''), (''id'', JStr ''9'')]])) ''created_ids''
       = JArr [JStr ''7'', JStr ''9'']
   \<and> map_all (\<lambda>s. js_String example_rt (js_get s ''id''))
        (filter is_success
           [JObj [(''status'', JStr ''success''), (''id'', JObj [(''toString'', JNum (Fin 1))])]])
       = Inl (JsError ''TypeError'' ''Cannot convert object to primitive value'')
   \<and> settle example_rt example_props ''{}''
        (Inr [JObj [(''status'', JStr ''success''), (''id'', JObj [(''toString'', JNum (Fin 1))])]])
       = Resolved (on_rejection example_props
           (JsError ''TypeError'' ''Cannot convert object to primitive value''))
   \<and> distinct (map fst [(''status'', JStr ''error''), (''raw'', JStr ''not json'')])
   \<and> prefix_keys (JObj [(''status'', JStr ''error''), (''raw'', JStr ''not json'')])
       = JObj [(''_p_status'', JStr ''error''), (''_p_raw'', JStr ''not json'')]"
proof -
  let ?three = "[JObj [(''status'', JStr ''success''), (''id'', JNum (Fin 7))],
            JObj [(''status'', JStr ''failed''), (''id'', JStr ''8'')],
            JObj [(''status'', JStr ''success''), (''id'', JStr ''9'')]]"
  let ?bad = "[JObj [(''status'', JStr ''success''), (''id'', JObj [(''toString'', JNum (Fin 1))])]]"
  have p: "JSON_parse example_rt ''[{\"status\":\"success\",\"id\":\"1\"},{\"status\":\"error\"}]''
     = Some (JArr [JObj [(''status'', JStr ''success''), (''id'', JStr ''1'')],
                   JObj [(''status'', JStr ''error'')]])"
    by (simp add: example_rt_def example_json_def)
  have d: "distinct (map fst [(''status'', JStr ''error''), (''raw'', JStr ''not json'')])" by simp
  have m: "map_all (\<lambda>s. js_String example_rt (js_get s ''id'')) (filter is_success ?three)
      = Inr [''7'', ''9'']"
    by (simp add: is_success_def js_and_def Number_toString_def digits_small)
  have b: "map_all (\<lambda>s. js_String example_rt (js_get s ''id'')) (filter is_success ?bad)
      = Inl (JsError ''TypeError'' ''Cannot convert object to primitive value'')"
    by (simp add: is_success_def js_and_def example_rt_def)
  note t = C2_reconcile [where rt = example_rt and props = example_props
      and es = "[(''status'', JStr ''error''), (''raw'', JStr ''not json'')]"]
  from t d have k: "prefix_keys (JObj [(''status'', JStr ''error''), (''raw'', JStr ''not json'')])
       = JObj [(''_p_status'', JStr ''error''), (''_p_raw'', JStr ''not json'')]"
    by simp
  from C2_reconcile [where rt = example_rt and props = example_props and n = 2, THEN conjunct2, THEN conjunct2,
      THEN conjunct2, THEN conjunct2, THEN conjunct2, rule_format, OF p]
  have r: "reconcile example_rt example_props 2
        (parse_response example_rt ''[{\"status\":\"success\",\"id\":\"1\"},{\"status\":\"error\"}]'')
       = Inr (JObj [(''returned_error'', JBool False),
                    (''requested_count'', JNum (Fin 2)),
                    (''created_count'', JNum (Fin 1)),
                    (''created_ids'', JArr [JStr ''1'']),
                    (''created_data'',
                       JArr [JObj [(''_p_status'', JStr ''success''), (''_p_id'', JStr ''1'')],
                             JObj [(''_p_status'', JStr ''error'')]]),
                    (''object_type_text'', JStr ''order''),
                    (''created_data_id'', JArr [JStr ''1''])])"
    by (simp add: example_props_def)
  from C2_reconcile [where rt = example_rt and props = example_props and n = 3
      and results = ?three and ids = "[''7'', ''9'']",
      THEN conjunct2, THEN conjunct1, rule_format, OF m]
  obtain out where "reconcile example_rt example_props 3 ?three = Inr out"
    and "js_get out ''created_ids'' = JArr (map JStr [''7'', ''9''])"
    by blast
  then have i: "js_get (projr (reconcile example_rt example_props 3 ?three)) ''created_ids''
       = JArr [JStr ''7'', JStr ''9'']"
    by simp
  from C2_reconcile [where rt = example_rt and props = example_props
      and results = ?bad and ndjsonBody = "''{}''",
      THEN conjunct2, THEN conjunct2, THEN conjunct1, rule_format, OF b]
  have s: "settle example_rt example_props ''{}'' (Inr ?bad)
       = Resolved (on_rejection example_props
           (JsError ''TypeError'' ''Cannot convert object to primitive value''))"
    by simp
  from p r m i b s d k show ?thesis by simp
qed

section \<open>Properties of the invocation\<close>






lemma dispatch_Inl: "dispatch rt transport props keys (Inl out) = (out, [])"
  by (simp add: dispatch_def)

lemma lower_keys: "toLowerCase ''Keys'' = ''keys''"
  by code_simp

lemma lower_jsonl: "toLowerCase ''JSONL'' = ''jsonl''"
  by code_simp





lemma many_rows_usingKeys: "usingKeys example_rt many_rows_props = Inr True"
  by (simp add: usingKeys_def modeStr_def call_toString_def many_rows_props_def example_props_def
      lower_keys)

lemma many_rows_max: "MAX_COUNT example_rt many_rows_props = Inr (Fin 25)"
  by (simp add: MAX_COUNT_def many_rows_props_def example_props_def)


lemma many_lines_max: "MAX_COUNT example_rt many_lines_props = Inr (Fin 2)"
  by (simp add: MAX_COUNT_def many_lines_props_def example_props_def)




lemma js_lower_eq_iff:
  assumes d: "(of_char d :: nat) = m" and m: "97 \<le> m" "m \<le> 122"
  shows "js_lower c = d \<longleftrightarrow> c = d \<or> c = char_of (m - 32)"
proof -
  let ?n = "of_char c :: nat"
  have n: "?n < 256" by simp
  show ?thesis
  proof (cases "(65 \<le> ?n \<and> ?n \<le> 90) \<or> (192 \<le> ?n \<and> ?n \<le> 222 \<and> ?n \<noteq> 215)")
    case True
    then have low: "js_lower c = char_of (?n + 32)"
      unfolding js_lower_def Let_def by (rule if_P)
    have "c \<noteq> d" using True d m by auto
    moreover have "char_of (?n + 32) = d \<longleftrightarrow> c = char_of (m - 32)"
    proof
      assume "char_of (?n + 32) = d"
      then have "(?n + 32) mod 256 = m" using d by (simp add: char_of_eq_iff take_bit_eq_mod)
      moreover have "(?n + 32) mod 256 = ?n + 32" using True by auto
      ultimately have "?n = m - 32" by simp
      then have "char_of ?n = char_of (m - 32)" by simp
      then show "c = char_of (m - 32)" by simp
    next
      assume "c = char_of (m - 32)"
      then have "?n = (m - 32) mod 256" by simp
      then have "?n = m - 32" using m by simp
      then have "?n + 32 = m" using m by simp
      then show "char_of (?n + 32) = d" using d by (metis char_of_char)
    qed
    ultimately show ?thesis using low by simp
  next
    case False
    then have same: "js_lower c = c"
      unfolding js_lower_def Let_def by (rule if_not_P)
    have "c \<noteq> char_of (m - 32)"
    proof
      assume "c = char_of (m - 32)"
      then have "?n = (m - 32) mod 256" by simp
      then have "?n = m - 32" using m by simp
      then show False using False m by auto
    qed
    then show ?thesis using same by auto
  qed
qed

lemma js_lower_k: "js_lower c = CHR ''k'' \<longleftrightarrow> c = CHR ''k'' \<or> c = CHR ''K''"
proof -
  have "char_of (75::nat) = CHR ''K''" by code_simp
  then show ?thesis using js_lower_eq_iff [of "CHR ''k''" 107 c] by simp
qed

lemma js_lower_e: "js_lower c = CHR ''e'' \<longleftrightarrow> c = CHR ''e'' \<or> c = CHR ''E''"
proof -
  have "char_of (69::nat) = CHR ''E''" by code_simp
  then show ?thesis using js_lower_eq_iff [of "CHR ''e''" 101 c] by simp
qed

lemma js_lower_y: "js_lower c = CHR ''y'' \<longleftrightarrow> c = CHR ''y'' \<or> c = CHR ''Y''"
proof -
  have "char_of (89::nat) = CHR ''Y''" by code_simp
  then show ?thesis using js_lower_eq_iff [of "CHR ''y''" 121 c] by simp
qed

lemma js_lower_s: "js_lower c = CHR ''s'' \<longleftrightarrow> c = CHR ''s'' \<or> c = CHR ''S''"
proof -
  have "char_of (83::nat) = CHR ''S''" by code_simp
  then show ?thesis using js_lower_eq_iff [of "CHR ''s''" 115 c] by simp
qed

lemma toLowerCase_keys_iff:
  "toLowerCase s = ''keys'' \<longleftrightarrow>
     (\<exists>a b c d. s = [a, b, c, d] \<and> (a = CHR ''k'' \<or> a = CHR ''K'') \<and> (b = CHR ''e'' \<or> b = CHR ''E'')
        \<and> (c = CHR ''y'' \<or> c = CHR ''Y'') \<and> (d = CHR ''s'' \<or> d = CHR ''S''))"
proof -
  have "toLowerCase s = ''keys'' \<longleftrightarrow>
      (\<exists>a b c d. s = [a, b, c, d] \<and> js_lower a = CHR ''k'' \<and> js_lower b = CHR ''e''
         \<and> js_lower c = CHR ''y'' \<and> js_lower d = CHR ''s'')"
    unfolding toLowerCase_def by (auto simp: map_eq_Cons_conv)
  then show ?thesis by (simp only: js_lower_k js_lower_e js_lower_y js_lower_s)
qed

lemma call_toString_Inr: "call_toString rt v = Inr s \<longleftrightarrow> js_String rt v = Inr s"
  by (cases v) (auto simp: call_toString_def)

lemma call_toString_Inl: "(\<exists>e. call_toString rt v = Inl e) \<longleftrightarrow> (\<exists>e. js_String rt v = Inl e)"
  by (cases v) (auto simp: call_toString_def)

text \<open>
  Claim C10. The invocation is in Keys mode exactly when the string form of the mode
  selector, in lower case, is \<open>keys\<close>: that is, when it is one of the spellings of \<open>keys\<close> in
  upper and lower case letters. With any other selector that has a string form, and with no
  selector, it runs the JSONL branch. (A selector with no string form gives no mode: the
  invocation is rejected.)
\<close>

theorem C10_mode_selection:
  "(js_String rt (if nullish (keys_or_raw props) then JStr [] else keys_or_raw props) = Inr s \<longrightarrow>
      usingKeys rt props = Inr (toLowerCase s = ''keys''))
   \<and> (usingKeys rt props = Inr True \<longleftrightarrow>
      (\<exists>a b c d.
         js_String rt (if nullish (keys_or_raw props) then JStr [] else keys_or_raw props)
           = Inr [a, b, c, d]
         \<and> (a = CHR ''k'' \<or> a = CHR ''K'') \<and> (b = CHR ''e'' \<or> b = CHR ''E'')
         \<and> (c = CHR ''y'' \<or> c = CHR ''Y'') \<and> (d = CHR ''s'' \<or> d = CHR ''S'')))
   \<and> (nullish (keys_or_raw props) \<longrightarrow> usingKeys rt props = Inr False)
   \<and> (usingKeys rt props = Inr False \<and> MAX_COUNT rt props = Inr m \<longrightarrow>
      invoke rt transport props keys
        = dispatch rt transport props keys (jsonl_mode_body rt props m))
   \<and> (usingKeys rt props = Inr True \<and> MAX_COUNT rt props = Inr m \<longrightarrow>
      invoke rt transport props keys
        = dispatch rt transport props keys (keys_mode_body rt props m))
   \<and> (js_String rt (if nullish (keys_or_raw props) then JStr [] else keys_or_raw props) = Inl e \<longrightarrow>
      (\<exists>e'. usingKeys rt props = Inl e' \<and> invoke rt transport props keys = (Rejected e', [])))"
proof (intro conjI impI)
  let ?v = "if nullish (keys_or_raw props) then JStr [] else keys_or_raw props"
  show "usingKeys rt props = Inr (toLowerCase s = ''keys'')" if "js_String rt ?v = Inr s"
  proof -
    from that have "call_toString rt ?v = Inr s" by (simp only: call_toString_Inr)
    then show ?thesis by (simp add: usingKeys_def modeStr_def)
  qed
  show "usingKeys rt props = Inr True \<longleftrightarrow>
      (\<exists>a b c d. js_String rt ?v = Inr [a, b, c, d]
         \<and> (a = CHR ''k'' \<or> a = CHR ''K'') \<and> (b = CHR ''e'' \<or> b = CHR ''E'')
         \<and> (c = CHR ''y'' \<or> c = CHR ''Y'') \<and> (d = CHR ''s'' \<or> d = CHR ''S''))"
  proof -
    have "usingKeys rt props = Inr True
        \<longleftrightarrow> (\<exists>s. call_toString rt ?v = Inr s \<and> toLowerCase s = ''keys'')"
      by (auto simp: usingKeys_def modeStr_def split: sum.splits)
    also have "\<dots> \<longleftrightarrow> (\<exists>s. js_String rt ?v = Inr s \<and> toLowerCase s = ''keys'')"
      by (simp only: call_toString_Inr)
    also have "\<dots> \<longleftrightarrow> (\<exists>a b c d. js_String rt ?v = Inr [a, b, c, d]
         \<and> (a = CHR ''k'' \<or> a = CHR ''K'') \<and> (b = CHR ''e'' \<or> b = CHR ''E'')
         \<and> (c = CHR ''y'' \<or> c = CHR ''Y'') \<and> (d = CHR ''s'' \<or> d = CHR ''S''))"
      unfolding toLowerCase_keys_iff by blast
    finally show ?thesis .
  qed
  show "usingKeys rt props = Inr False" if "nullish (keys_or_raw props)"
    using that by (simp add: usingKeys_def modeStr_def call_toString_def toLowerCase_def)
  show "invoke rt transport props keys
        = dispatch rt transport props keys (jsonl_mode_body rt props m)"
    if "usingKeys rt props = Inr False \<and> MAX_COUNT rt props = Inr m"
    using that by (simp add: invoke_def)
  show "invoke rt transport props keys
        = dispatch rt transport props keys (keys_mode_body rt props m)"
    if "usingKeys rt props = Inr True \<and> MAX_COUNT rt props = Inr m"
    using that by (simp add: invoke_def)
  show "\<exists>e'. usingKeys rt props = Inl e' \<and> invoke rt transport props keys = (Rejected e', [])"
    if "js_String rt ?v = Inl e"
  proof -
    from that have "\<exists>e. js_String rt ?v = Inl e" by blast
    then obtain e' where "call_toString rt ?v = Inl e'"
      unfolding call_toString_Inl [symmetric] by blast
    then have "usingKeys rt props = Inl e'"
      by (simp add: usingKeys_def modeStr_def)
    then show ?thesis by (simp add: invoke_def)
  qed
qed

theorem C10_witness:
  "js_String example_rt (if nullish (keys_or_raw many_lines_props) then JStr []
                         else keys_or_raw many_lines_props) = Inr ''JSONL''
   \<and> usingKeys example_rt many_lines_props = Inr False
   \<and> MAX_COUNT example_rt many_lines_props = Inr (Fin 2)
   \<and> invoke example_rt example_transport many_lines_props example_keys
       = dispatch example_rt example_transport many_lines_props example_keys
           (jsonl_mode_body example_rt many_lines_props (Fin 2))
   \<and> usingKeys example_rt many_rows_props = Inr True
   \<and> MAX_COUNT example_rt many_rows_props = Inr (Fin 25)
   \<and> invoke example_rt example_transport many_rows_props example_keys
       = dispatch example_rt example_transport many_rows_props example_keys
           (keys_mode_body example_rt many_rows_props (Fin 25))
   \<and> nullish (keys_or_raw (example_props\<lparr>keys_or_raw := JUndefined\<rparr>))
   \<and> usingKeys example_rt (example_props\<lparr>keys_or_raw := JUndefined\<rparr>) = Inr False
   \<and> usingKeys example_rt (example_props\<lparr>keys_or_raw := JStr ''KEYS''\<rparr>) = Inr True
   \<and> js_String example_rt
        (if nullish (keys_or_raw (example_props\<lparr>keys_or_raw := JObj [(''toString'', JNull)]\<rparr>))
         then JStr []
         else keys_or_raw (example_props\<lparr>keys_or_raw := JObj [(''toString'', JNull)]\<rparr>))
       = Inl (JsError ''TypeError'' ''Cannot convert object to primitive value'')
   \<and> fst (invoke example_rt example_transport
            (example_props\<lparr>keys_or_raw := JObj [(''toString'', JNull)]\<rparr>) example_keys)
       = Rejected (JsError ''TypeError'' ''toString is not a function'')"
proof -
  let ?bad = "example_props\<lparr>keys_or_raw := JObj [(''toString'', JNull)]\<rparr>"
  have s: "js_String example_rt (if nullish (keys_or_raw many_lines_props) then JStr []
                         else keys_or_raw many_lines_props) = Inr ''JSONL''"
    by (simp add: many_lines_props_def)
  from C10_mode_selection [where rt = example_rt and props = many_lines_props,
      THEN conjunct1, rule_format, OF s]
  have a: "usingKeys example_rt many_lines_props = Inr False"
    by (simp add: lower_jsonl)
  from C10_mode_selection [where rt = example_rt and props = many_lines_props
      and transport = example_transport and keys = example_keys,
      THEN conjunct2, THEN conjunct2, THEN conjunct2, THEN conjunct1, rule_format,
      OF conjI, OF a many_lines_max]
  have b: "invoke example_rt example_transport many_lines_props example_keys
       = dispatch example_rt example_transport many_lines_props example_keys
           (jsonl_mode_body example_rt many_lines_props (Fin 2))" .
  from C10_mode_selection [where rt = example_rt and props = many_rows_props
      and transport = example_transport and keys = example_keys,
      THEN conjunct2, THEN conjunct2, THEN conjunct2, THEN conjunct2, THEN conjunct1, rule_format,
      OF conjI, OF many_rows_usingKeys many_rows_max]
  have b': "invoke example_rt example_transport many_rows_props example_keys
       = dispatch example_rt example_transport many_rows_props example_keys
           (keys_mode_body example_rt many_rows_props (Fin 25))" .
  have c: "nullish (keys_or_raw (example_props\<lparr>keys_or_raw := JUndefined\<rparr>))" by simp
  from C10_mode_selection [where rt = example_rt
      and props = "example_props\<lparr>keys_or_raw := JUndefined\<rparr>",
      THEN conjunct2, THEN conjunct2, THEN conjunct1, rule_format, OF c]
  have d: "usingKeys example_rt (example_props\<lparr>keys_or_raw := JUndefined\<rparr>) = Inr False" .
  have "\<exists>a b c d.
         js_String example_rt
           (if nullish (keys_or_raw (example_props\<lparr>keys_or_raw := JStr ''KEYS''\<rparr>)) then JStr []
            else keys_or_raw (example_props\<lparr>keys_or_raw := JStr ''KEYS''\<rparr>)) = Inr [a, b, c, d]
         \<and> (a = CHR ''k'' \<or> a = CHR ''K'') \<and> (b = CHR ''e'' \<or> b = CHR ''E'')
         \<and> (c = CHR ''y'' \<or> c = CHR ''Y'') \<and> (d = CHR ''s'' \<or> d = CHR ''S'')"
    by simp
  with C10_mode_selection [where rt = example_rt
      and props = "example_props\<lparr>keys_or_raw := JStr ''KEYS''\<rparr>",
      THEN conjunct2, THEN conjunct1]
  have e: "usingKeys example_rt (example_props\<lparr>keys_or_raw := JStr ''KEYS''\<rparr>) = Inr True"
    by blast
  have f: "js_String example_rt
        (if nullish (keys_or_raw ?bad) then JStr [] else keys_or_raw ?bad)
       = Inl (JsError ''TypeError'' ''Cannot convert object to primitive value'')"
    by (simp add: example_rt_def)
  from C10_mode_selection [where rt = example_rt and props = ?bad
      and transport = example_transport and keys = example_keys,
      THEN conjunct2, THEN conjunct2, THEN conjunct2, THEN conjunct2, THEN conjunct2,
      rule_format, OF f]
  obtain e' where "usingKeys example_rt ?bad = Inl e'"
    and "invoke example_rt example_transport ?bad example_keys = (Rejected e', [])"
    by blast
  then have g: "fst (invoke example_rt example_transport ?bad example_keys)
       = Rejected (JsError ''TypeError'' ''toString is not a function'')"
    by (simp add: usingKeys_def modeStr_def call_toString_def example_rt_def)
  from s a many_lines_max b many_rows_usingKeys many_rows_max b' c d e f g
  show ?thesis by simp
qed

lemma failing_list_not_usingKeys: "usingKeys example_rt failing_list_props = Inr False"
  by (simp add: usingKeys_def modeStr_def call_toString_def failing_list_props_def
      example_props_def lower_jsonl)

lemma failing_list_max: "MAX_COUNT example_rt failing_list_props = Inr (Fin 25)"
  by (simp add: MAX_COUNT_def failing_list_props_def example_props_def)

text \<open>
  Claim C3 says that no error leaves the invocation. In JSONL mode the calls \<open>length()\<close> and
  \<open>get()\<close> of \<open>ndjson_list\<close> are awaited outside every handler: when \<open>length()\<close> is rejected,
  the invocation is rejected with the same error, and nothing is returned.
\<close>

theorem C3_rejection_leaves_the_invocation:
  "invoke example_rt example_transport failing_list_props example_keys
     = (Rejected (JsError ''Error'' ''list unavailable''), [])"
proof -
  have "list_lines example_rt failing_list_props = Inl (JsError ''Error'' ''list unavailable'')"
    by (simp add: list_lines_def failing_list_props_def example_props_def)
  then have "jsonl_mode_body example_rt failing_list_props (Fin 25)
      = Inl (Rejected (JsError ''Error'' ''list unavailable''))"
    by (simp add: jsonl_mode_body_def)
  then show ?thesis
    using failing_list_not_usingKeys failing_list_max by (simp add: invoke_def dispatch_Inl)
qed

lemma unconvertible_items_usingKeys: "usingKeys rt unconvertible_items_props = Inr False"
  by (simp add: usingKeys_def modeStr_def call_toString_def unconvertible_items_props_def
      example_props_def lower_jsonl)

lemma unconvertible_items_max: "MAX_COUNT rt unconvertible_items_props = Inr (Fin 25)"
  by (simp add: MAX_COUNT_def unconvertible_items_props_def example_props_def)

text \<open>
  Claim C9 says that every element of a sequence that is not a string gives the line of its
  JSON serialization. The object \<open>{"toString":1}\<close> has the serialization \<open>{"toString":1}\<close>, but
  the normalizer first asks for its string form, to see whether that is blank, and the object
  has none: the normalizer throws. It is called outside every handler, so with this object
  as the one element of \<open>items\<close> the invocation is rejected with the TypeError; no line is
  made and nothing is returned. Given as the text \<open>[{"toString":1}]\<close>, the same sequence gives
  the line.
\<close>

theorem C9_element_without_string_form:
  "JSON_stringify rt (JObj [(''toString'', JNum (Fin 1))]) = ''{\"toString\":1}''
   \<and> toJsonlLines rt (JArr [JObj [(''toString'', JNum (Fin 1))]]) = Inl (no_primitive_error rt)
   \<and> invoke rt transport unconvertible_items_props keys = (Rejected (no_primitive_error rt), [])
   \<and> invoke example_rt example_transport unconvertible_items_props example_keys
       = (Rejected (JsError ''TypeError'' ''Cannot convert object to primitive value''), [])
   \<and> toJsonlLines example_rt (JStr ''[{\"toString\":1}]'') = Inr [''{\"toString\":1}'']"
proof -
  have d: "toJsonlLines example_rt (JStr ''[{\"toString\":1}]'') = Inr [''{\"toString\":1}'']"
    by (simp add: toJsonlLines_def try_json_array_def startsWith_def trim_def js_space_def
        example_rt_def example_json_def stringify_defs digits_small)
  have a: "JSON_stringify rt (JObj [(''toString'', JNum (Fin 1))]) = ''{\"toString\":1}''"
    by (simp add: stringify_defs digits_small)
  have b: "toJsonlLines rt (JArr [JObj [(''toString'', JNum (Fin 1))]]) = Inl (no_primitive_error rt)"
    for rt
    by (simp add: toJsonlLines_def keep_element_def)
  have "list_lines rt unconvertible_items_props = Inr []" for rt
    by (simp add: list_lines_def unconvertible_items_props_def example_props_def)
  moreover have "gather_lines rt unconvertible_items_props [] = Inl (no_primitive_error rt)" for rt
    by (simp add: gather_lines_def unconvertible_items_props_def example_props_def b)
  ultimately have "jsonl_mode_body rt unconvertible_items_props (Fin 25)
      = Inl (Rejected (no_primitive_error rt))" for rt
    by (simp add: jsonl_mode_body_def)
  then have c: "invoke rt transport unconvertible_items_props keys
      = (Rejected (no_primitive_error rt), [])" for rt transport keys
    by (simp add: invoke_def unconvertible_items_usingKeys unconvertible_items_max dispatch_Inl)
  have "no_primitive_error example_rt
      = JsError ''TypeError'' ''Cannot convert object to primitive value''"
    by (simp add: example_rt_def)
  then show ?thesis
    using a b c [of example_rt example_transport example_keys] c [of rt transport keys] d by simp
qed

end
